theory Spec2Isabelle
  imports Main "HOL-Library.Word" "HOL-Library.Multiset"
begin

section \<open>Bytes, paths and the file system\<close>

text \<open>
  Python \<open>bytes\<close> are lists of 8-bit words, \<open>str\<close> is \<open>string\<close>, a \<open>Path\<close> is the
  string of the full path.  The file system is a map from paths to file contents together
  with the two ways in which the operating system can refuse an operation that the
  programs below perform: a path that cannot be opened for writing and a path that cannot
  be unlinked.  Every refused operation is an exception in the Python source.
\<close>

type_synonym byte = "8 word"
type_synonym bytes = "byte list"
type_synonym path = string

record fs_state =
  files :: "path \<rightharpoonup> bytes"
  no_write :: "path set"
  no_unlink :: "path set"

definition joinpath :: "path \<Rightarrow> string \<Rightarrow> path" where
  "joinpath d n = d @ ''/'' @ n"

definition path_exists :: "fs_state \<Rightarrow> path \<Rightarrow> bool" where
  "path_exists fs p = (files fs p \<noteq> None)"

definition read_bytes :: "fs_state \<Rightarrow> path \<Rightarrow> bytes option" where
  "read_bytes fs p = files fs p"

text \<open>
  \<open>Path.write_bytes\<close> is \<open>open(mode='wb')\<close>, \<open>write\<close>, \<open>close\<close>: the file is created
  or truncated first and filled afterwards.  The three steps are kept apart as \<open>fs_op\<close>
  values so that the state of the disk between them can be inspected; \<open>Replace\<close> is
  \<open>os.replace\<close>.  A step that the operating system refuses yields \<open>None\<close> (the
  exception); the steps before it have happened.
\<close>

datatype fs_op =
    OpenTrunc path
  | WriteData path bytes
  | CloseFile path
  | Replace path path


fun apply_op :: "fs_op \<Rightarrow> fs_state \<Rightarrow> fs_state option" where
  "apply_op (OpenTrunc p) fs =
     (if p \<in> no_write fs then None else Some (fs\<lparr>files := (files fs)(p \<mapsto> [])\<rparr>))"
| "apply_op (WriteData p d) fs =
     Some (fs\<lparr>files := (files fs)(p \<mapsto> (case files fs p of None \<Rightarrow> d | Some old \<Rightarrow> old @ d))\<rparr>)"
| "apply_op (CloseFile p) fs = Some fs"
| "apply_op (Replace p q) fs =
     (case files fs p of None \<Rightarrow> None
      | Some d \<Rightarrow> if q \<in> no_write fs then None
                  else Some (fs\<lparr>files := ((files fs)(p := None))(q \<mapsto> d)\<rparr>))"

fun run_ops :: "fs_op list \<Rightarrow> fs_state \<Rightarrow> fs_state option" where
  "run_ops [] fs = Some fs"
| "run_ops (x # xs) fs = (case apply_op x fs of None \<Rightarrow> None | Some fs' \<Rightarrow> run_ops xs fs')"

definition write_bytes_ops :: "path \<Rightarrow> bytes \<Rightarrow> fs_op list" where
  "write_bytes_ops p data = [OpenTrunc p, WriteData p data, CloseFile p]"

definition write_bytes :: "fs_state \<Rightarrow> path \<Rightarrow> bytes \<Rightarrow> fs_state option" where
  "write_bytes fs p data = run_ops (write_bytes_ops p data) fs"

definition unlink :: "fs_state \<Rightarrow> path \<Rightarrow> fs_state option" where
  "unlink fs p =
     (if files fs p = None \<or> p \<in> no_unlink fs then None
      else Some (fs\<lparr>files := (files fs)(p := None)\<rparr>))"

definition str_encode :: "string \<Rightarrow> bytes" where
  "str_encode s = map (\<lambda>c. of_nat (of_char c)) s"

definition py_slice :: "'a list \<Rightarrow> nat \<Rightarrow> nat \<Rightarrow> 'a list" where
  "py_slice xs a b = take (b - a) (drop a xs)"

definition to_bytes2_big :: "nat \<Rightarrow> bytes option" where
  "to_bytes2_big n =
     (if n < 65536 then Some [of_nat (n div 256), of_nat (n mod 256)] else None)"

definition from_bytes_big :: "bytes \<Rightarrow> nat" where
  "from_bytes_big bs = foldl (\<lambda>acc b. acc * 256 + unat b) 0 bs"

definition char_upper :: "char \<Rightarrow> char" where
  "char_upper c =
     (if (97::nat) \<le> of_char c \<and> of_char c \<le> (122::nat)
      then char_of (of_char c - (32::nat)) else c)"

definition str_upper :: "string \<Rightarrow> string" where
  "str_upper s = map char_upper s"

section \<open>Key envelope: \<open>usb_key_manager.py\<close>\<close>

definition KEY_FILE_NAME :: string where "KEY_FILE_NAME = ''.vault.key''"
definition VERSION :: bytes where "VERSION = [3]"
definition SALT_SIZE :: nat where "SALT_SIZE = 32"
definition AES_KEY_SIZE :: nat where "AES_KEY_SIZE = 32"
definition NONCE_SIZE :: nat where "NONCE_SIZE = 12"
definition PBKDF2_ITERATIONS :: nat where "PBKDF2_ITERATIONS = 480000"

text \<open>
  The \<open>cryptography\<close> package is not part of the repository.  Its three entry points are
  parameters of the model; \<open>None\<close> stands for any exception they raise.
  \<^item> \<open>kdf len salt iters secret\<close> is \<open>PBKDF2HMAC(SHA256, len, salt, iters).derive(secret.encode())\<close>;
  \<^item> \<open>enc key nonce data aad\<close> is \<open>AESGCM(key).encrypt(nonce, data, aad)\<close>;
  \<^item> \<open>dec key nonce data aad\<close> is \<open>AESGCM(key).decrypt(nonce, data, aad)\<close>
    (\<open>InvalidTag\<close>, a bad nonce or key length: all \<open>None\<close>).
\<close>

type_synonym kdf_fn = "nat \<Rightarrow> bytes \<Rightarrow> nat \<Rightarrow> string \<Rightarrow> bytes option"
type_synonym aead_fn = "bytes \<Rightarrow> bytes \<Rightarrow> bytes \<Rightarrow> bytes \<Rightarrow> bytes option"

definition derive_key :: "kdf_fn \<Rightarrow> string \<Rightarrow> bytes \<Rightarrow> bytes option" where
  "derive_key kdf secret salt = kdf AES_KEY_SIZE salt PBKDF2_ITERATIONS secret"

text \<open>
  The values that \<open>create_usb_key\<close> draws from the \<open>secrets\<close> module, in the order of
  the source: \<open>token_bytes(SALT_SIZE)\<close> twice, \<open>token_bytes(NONCE_SIZE)\<close>,
  \<open>token_bytes(AES_KEY_SIZE)\<close> and \<open>token_urlsafe(12)\<close>.  \<open>token_bytes(n)\<close> returns
  exactly \<open>n\<close> bytes, which \<open>draws_ok\<close> records.
\<close>

record key_draws =
  d_salt_pw :: bytes
  d_salt_recovery :: bytes
  d_nonce :: bytes
  d_master_key :: bytes
  d_urlsafe :: string

definition draws_ok :: "key_draws \<Rightarrow> bool" where
  "draws_ok d = (length (d_salt_pw d) = SALT_SIZE \<and> length (d_salt_recovery d) = SALT_SIZE
     \<and> length (d_nonce d) = NONCE_SIZE \<and> length (d_master_key d) = AES_KEY_SIZE)"

text \<open>
  \<open>create_usb_key\<close>: the \<open>try\<close> body is a chain of steps each of which may raise; the
  \<open>except\<close> clause turns every exception into the result \<open>None\<close>.  The file system is
  changed only by \<open>write_bytes\<close>, the last step that can raise.  (On Windows the source
  then marks the file hidden, which does not touch its contents.)
\<close>

definition create_usb_key ::
  "kdf_fn \<Rightarrow> aead_fn \<Rightarrow> fs_state \<Rightarrow> path \<Rightarrow> string \<Rightarrow> key_draws \<Rightarrow> fs_state \<times> string option" where
  "create_usb_key kdf enc fs usb_path password d =
     (let salt_pw = d_salt_pw d;
          salt_recovery = d_salt_recovery d;
          nonce = d_nonce d;
          master_key = d_master_key d;
          recovery_code = str_upper (take 16 (d_urlsafe d))
      in case derive_key kdf password salt_pw of None \<Rightarrow> (fs, None) | Some key_pw \<Rightarrow>
         case derive_key kdf recovery_code salt_recovery of None \<Rightarrow> (fs, None) | Some key_recovery \<Rightarrow>
         let payload = VERSION @ master_key
         in case enc key_pw nonce payload salt_pw of None \<Rightarrow> (fs, None) | Some ct_pw \<Rightarrow>
            case enc key_recovery nonce payload salt_recovery of None \<Rightarrow> (fs, None) | Some ct_recovery \<Rightarrow>
            case to_bytes2_big (length ct_pw) of None \<Rightarrow> (fs, None) | Some len_pw \<Rightarrow>
            let blob = VERSION @ salt_pw @ salt_recovery @ nonce @ len_pw @ ct_pw @ ct_recovery;
                key_file = joinpath usb_path KEY_FILE_NAME
            in case write_bytes fs key_file blob of None \<Rightarrow> (fs, None)
               | Some fs' \<Rightarrow> (fs', Some recovery_code))"

text \<open>
  \<open>load_usb_key\<close> returns \<open>None\<close> at four places, each with its own debug line on
  standard output.  \<open>load_usb_key_outcome\<close> keeps the place as the \<open>Inl\<close> tag;
  \<open>load_usb_key\<close> is what the caller receives.  Slices never raise; the only steps
  of the \<open>try\<close> body that can raise are the key derivation and the decryption.
  \<open>parse_key_blob\<close> is the run of slices in the middle of the \<open>try\<close> body: it
  yields the salt, the nonce and the ciphertext of the chosen path.
\<close>

datatype load_failure =
    KeyFileNotFound
  | VersionMismatch
  | PayloadVersionMismatch
  | LoadError

definition parse_key_blob :: "bytes \<Rightarrow> bool \<Rightarrow> bytes \<times> bytes \<times> bytes" where
  "parse_key_blob data is_recovery =
     (let off = 1;
          salt_pw = py_slice data off (off + SALT_SIZE);
          off = off + SALT_SIZE;
          salt_recovery = py_slice data off (off + SALT_SIZE);
          off = off + SALT_SIZE;
          nonce = py_slice data off (off + NONCE_SIZE);
          off = off + NONCE_SIZE;
          ct_len = from_bytes_big (py_slice data off (off + 2));
          off = off + 2;
          ct_pw = py_slice data off (off + ct_len);
          ct_recovery = drop (off + ct_len) data;
          salt = (if is_recovery then salt_recovery else salt_pw);
          ciphertext = (if is_recovery then ct_recovery else ct_pw)
      in (salt, nonce, ciphertext))"

definition load_usb_key_outcome ::
  "kdf_fn \<Rightarrow> aead_fn \<Rightarrow> fs_state \<Rightarrow> path \<Rightarrow> string \<Rightarrow> bool \<Rightarrow> load_failure + bytes" where
  "load_usb_key_outcome kdf dec fs usb_path secret is_recovery =
     (let key_file = joinpath usb_path KEY_FILE_NAME
      in if \<not> path_exists fs key_file then Inl KeyFileNotFound
         else case read_bytes fs key_file of None \<Rightarrow> Inl LoadError | Some data \<Rightarrow>
           let version = py_slice data 0 1
           in if version \<noteq> VERSION then Inl VersionMismatch
              else case parse_key_blob data is_recovery of (salt, nonce, ciphertext) \<Rightarrow>
                (case derive_key kdf secret salt of None \<Rightarrow> Inl LoadError | Some key \<Rightarrow>
                 (case dec key nonce ciphertext salt of None \<Rightarrow> Inl LoadError | Some payload \<Rightarrow>
                  if take (length VERSION) payload \<noteq> VERSION then Inl PayloadVersionMismatch
                  else Inr (py_slice payload 1 (1 + AES_KEY_SIZE)))))"

definition load_usb_key ::
  "kdf_fn \<Rightarrow> aead_fn \<Rightarrow> fs_state \<Rightarrow> path \<Rightarrow> string \<Rightarrow> bool \<Rightarrow> bytes option" where
  "load_usb_key kdf dec fs usb_path secret is_recovery =
     (case load_usb_key_outcome kdf dec fs usb_path secret is_recovery of
        Inl _ \<Rightarrow> None | Inr master_key \<Rightarrow> Some master_key)"


section \<open>Storage engine: \<open>encryption.py\<close>\<close>

definition VAULT_DIR :: path where "VAULT_DIR = ''~/.secure_vault''"
definition VAULT_INDEX :: path where "VAULT_INDEX = joinpath VAULT_DIR ''.vault_index''"

text \<open>
  \<open>VaultCrypto\<close> wraps a Fernet object of the \<open>cryptography\<close> package.  The object is
  modelled by its two methods.  \<open>encrypt_file\<close> is \<open>None\<close> where the call raises (for
  instance after \<open>wipe\<close>); \<open>decrypt_file\<close> catches every exception itself and returns
  \<open>None\<close> then.
\<close>

record vault_crypto =
  encrypt_file :: "bytes \<Rightarrow> bytes option"
  decrypt_file :: "bytes \<Rightarrow> bytes option"

text \<open>
  \<open>get_file_integrity_hash\<close> is \<open>hashlib.sha256(data).hexdigest()\<close>; SHA-256 is the
  parameter \<open>sha\<close> of everything that hashes.
\<close>

type_synonym sha_fn = "bytes \<Rightarrow> string"

definition get_file_integrity_hash :: "sha_fn \<Rightarrow> bytes \<Rightarrow> string" where
  "get_file_integrity_hash sha data = sha data"

text \<open>
  \<open>secure_delete\<close>.  The trace lists every system call the function attempts, in order,
  with the number of the overwrite pass; \<open>Warned\<close> is the line printed by the
  \<open>except\<close> clause.  A call fails where the file system refuses it (missing file for
  \<open>stat\<close> and \<open>open\<close>, \<open>no_write\<close> for \<open>open\<close>, \<open>no_unlink\<close> for \<open>unlink\<close>) or
  where the environment \<open>faulty\<close> says that it raises an I/O error.
  \<open>token_bytes i n\<close> is the value of the \<open>i\<close>-th call \<open>secrets.token_bytes(n)\<close>.
\<close>

datatype io_event =
    Stat path
  | OpenRW path
  | Seek nat nat
  | WriteAt nat bytes
  | Flush nat
  | Fsync nat
  | CloseRW path
  | Unlink path
  | Warned

definition overwrite_at0 :: "bytes \<Rightarrow> bytes \<Rightarrow> bytes" where
  "overwrite_at0 old data = data @ drop (length data) old"

text \<open>
  One iteration of the \<open>for\<close> loop per recursive call: pass \<open>i\<close>, with \<open>n\<close> passes
  still to do.  The result is the file content, the calls attempted and whether the loop
  ran to its end.
\<close>

fun overwrite_loop ::
  "(io_event \<Rightarrow> bool) \<Rightarrow> (nat \<Rightarrow> nat \<Rightarrow> bytes) \<Rightarrow> nat \<Rightarrow> nat \<Rightarrow> nat \<Rightarrow> bytes
     \<Rightarrow> bytes \<times> io_event list \<times> bool" where
  "overwrite_loop faulty token_bytes sz i 0 content = (content, [], True)"
| "overwrite_loop faulty token_bytes sz i (Suc n) content =
     (if faulty (Seek i 0) then (content, [Seek i 0], False)
      else let data = token_bytes i sz in
        if faulty (WriteAt i data) then (content, [Seek i 0, WriteAt i data], False)
        else let content' = overwrite_at0 content data in
          if faulty (Flush i) then (content', [Seek i 0, WriteAt i data, Flush i], False)
          else if faulty (Fsync i)
            then (content', [Seek i 0, WriteAt i data, Flush i, Fsync i], False)
          else case overwrite_loop faulty token_bytes sz (Suc i) n content' of
            (c, tr, ok) \<Rightarrow> (c, [Seek i 0, WriteAt i data, Flush i, Fsync i] @ tr, ok))"

definition fallback_unlink :: "(io_event \<Rightarrow> bool) \<Rightarrow> fs_state \<Rightarrow> path \<Rightarrow> fs_state" where
  "fallback_unlink faulty fs p =
     (if faulty (Unlink p) then fs else case unlink fs p of None \<Rightarrow> fs | Some fs' \<Rightarrow> fs')"

definition secure_delete_passes ::
  "(io_event \<Rightarrow> bool) \<Rightarrow> (nat \<Rightarrow> nat \<Rightarrow> bytes) \<Rightarrow> fs_state \<Rightarrow> path \<Rightarrow> nat
     \<Rightarrow> fs_state \<times> io_event list" where
  "secure_delete_passes faulty token_bytes fs p passes =
     (case (if faulty (Stat p) then None else files fs p) of
        None \<Rightarrow> (fallback_unlink faulty fs p, [Stat p, Warned, Unlink p])
      | Some content \<Rightarrow>
          let sz = length content in
          if faulty (OpenRW p) \<or> p \<in> no_write fs
          then (fallback_unlink faulty fs p, [Stat p, OpenRW p, Warned, Unlink p])
          else case overwrite_loop faulty token_bytes sz 0 passes content of
            (content', tr, ok) \<Rightarrow>
              let fs1 = fs\<lparr>files := (files fs)(p \<mapsto> content')\<rparr>;
                  tr1 = [Stat p, OpenRW p] @ tr @ [CloseRW p]
              in if \<not> ok then (fallback_unlink faulty fs1 p, tr1 @ [Warned, Unlink p])
                 else case (if faulty (Unlink p) then None else unlink fs1 p) of
                   Some fs2 \<Rightarrow> (fs2, tr1 @ [Unlink p])
                 | None \<Rightarrow> (fallback_unlink faulty fs1 p, tr1 @ [Unlink p, Warned, Unlink p]))"

text \<open>The default \<open>passes=3\<close>; every call in the repository uses it.\<close>

definition secure_delete ::
  "(io_event \<Rightarrow> bool) \<Rightarrow> (nat \<Rightarrow> nat \<Rightarrow> bytes) \<Rightarrow> fs_state \<Rightarrow> path \<Rightarrow> fs_state \<times> io_event list" where
  "secure_delete faulty token_bytes fs p = secure_delete_passes faulty token_bytes fs p 3"


section \<open>Storage engine: \<open>vault_manager.py\<close>\<close>

text \<open>
  An index entry is the dictionary that \<open>add_file\<close> stores; \<open>sha256\<close> is optional
  because the readers use \<open>meta.get("sha256", "")\<close>.  The time stamps are the floats of
  \<open>time.time()\<close>; only their order and their printed form are used, so they are values
  of any linearly ordered type \<open>'t\<close>.  The index is a Python \<open>dict\<close>: an association
  list in insertion order, where assigning to a present key keeps its position.
\<close>

record 't vault_entry =
  original_name :: string
  vault_file :: string
  added_at :: 't
  size_bytes :: nat
  sha256 :: "string option"

type_synonym 't vault_index = "(string \<times> 't vault_entry) list"

record 't vault_manager =
  vm_crypto :: vault_crypto
  vm_index :: "'t vault_index"

fun dict_set :: "'k \<Rightarrow> 'v \<Rightarrow> ('k \<times> 'v) list \<Rightarrow> ('k \<times> 'v) list" where
  "dict_set k v [] = [(k, v)]"
| "dict_set k v ((k', v') # rest) =
     (if k = k' then (k, v) # rest else (k', v') # dict_set k v rest)"

definition dict_get :: "('k \<times> 'v) list \<Rightarrow> 'k \<Rightarrow> 'v option" where
  "dict_get d k = map_of d k"

text \<open>The lines printed by the vault manager, one constructor per \<open>print\<close> call.\<close>

datatype vault_msg =
    EntryNotFound string
  | VaultFileMissing path
  | DecryptionFailed
  | IntegrityCheckFailed
  | ExtractError
  | AddError

text \<open>
  What the vault manager takes from its environment: SHA-256, the printed form of a time
  stamp (\<open>f"{time.time()}"\<close>), \<open>json.dumps(index, indent=2).encode("utf-8")\<close>, and the
  environment of \<open>secure_delete\<close>.
\<close>

record 't vault_env =
  env_sha :: sha_fn
  env_time_str :: "'t \<Rightarrow> string"
  env_dumps :: "'t vault_index \<Rightarrow> bytes"
  env_faulty :: "io_event \<Rightarrow> bool"
  env_token_bytes :: "nat \<Rightarrow> nat \<Rightarrow> bytes"

text \<open>
  \<open>_save_index\<close>: serialise, encrypt, \<open>write_bytes\<close> to the index path.
  \<open>save_index_ops\<close> is the sequence of file operations it issues (\<open>None\<close> where the
  encryption raises before any of them).
\<close>

definition save_index_ops :: "'t vault_env \<Rightarrow> 't vault_manager \<Rightarrow> fs_op list option" where
  "save_index_ops env vm =
     (let plaintext = env_dumps env (vm_index vm)
      in case encrypt_file (vm_crypto vm) plaintext of
           None \<Rightarrow> None
         | Some ciphertext \<Rightarrow> Some (write_bytes_ops VAULT_INDEX ciphertext))"

definition save_index :: "'t vault_env \<Rightarrow> 't vault_manager \<Rightarrow> fs_state \<Rightarrow> fs_state option" where
  "save_index env vm fs =
     (case save_index_ops env vm of None \<Rightarrow> None | Some ops \<Rightarrow> run_ops ops fs)"

definition path_name :: "path \<Rightarrow> string" where
  "path_name p = rev (takeWhile (\<lambda>c. c \<noteq> CHR ''/'') (rev p))"

text \<open>
  \<open>add_file\<close>.  \<open>t_stem\<close> and \<open>t_added\<close> are the two readings of \<open>time.time()\<close>.
  The result is the manager and the disk as the call leaves them, the returned boolean
  and the line printed.  The entry is put into the in-memory index before
  \<open>_save_index\<close> runs, so it stays there when \<open>_save_index\<close> raises.
\<close>

definition add_file ::
  "'t vault_env \<Rightarrow> 't vault_manager \<Rightarrow> fs_state \<Rightarrow> path \<Rightarrow> bool \<Rightarrow> 't \<Rightarrow> 't
     \<Rightarrow> 't vault_manager \<times> fs_state \<times> bool \<times> vault_msg list" where
  "add_file env vm fs source_path secure_wipe_original t_stem t_added =
     (case read_bytes fs source_path of
        None \<Rightarrow> (vm, fs, False, [AddError])
      | Some plaintext \<Rightarrow>
          let digest = get_file_integrity_hash (env_sha env) plaintext
          in case encrypt_file (vm_crypto vm) plaintext of
               None \<Rightarrow> (vm, fs, False, [AddError])
             | Some ciphertext \<Rightarrow>
                 let vault_stem = env_sha env
                       (str_encode (path_name source_path @ env_time_str env t_stem));
                     vault_path = joinpath VAULT_DIR (vault_stem @ ''.enc'')
                 in case write_bytes fs vault_path ciphertext of
                      None \<Rightarrow> (vm, fs, False, [AddError])
                    | Some fs1 \<Rightarrow>
                        let vault_id = take 16 vault_stem;
                            meta = \<lparr>original_name = path_name source_path,
                                    vault_file = path_name vault_path,
                                    added_at = t_added,
                                    size_bytes = length plaintext,
                                    sha256 = Some digest\<rparr>;
                            vm1 = vm\<lparr>vm_index := dict_set vault_id meta (vm_index vm)\<rparr>
                        in case save_index env vm1 fs1 of
                             None \<Rightarrow> (vm1, fs1, False, [AddError])
                           | Some fs2 \<Rightarrow>
                               (vm1,
                                (if secure_wipe_original
                                 then fst (secure_delete (env_faulty env) (env_token_bytes env)
                                             fs2 source_path)
                                 else fs2),
                                True, []))"

text \<open>
  \<open>list_files\<close>.  A result is the dictionary built in the loop.  \<open>list.sort(key=...,
  reverse=True)\<close> is stable: CPython reverses the list, sorts it stably in ascending
  order and reverses it again.  The method is written in state-passing style like the
  others: it returns the manager and the disk as it leaves them, and the list.
\<close>

record 't listing =
  r_vault_id :: string
  r_original_name :: string
  r_added_at :: 't
  r_size_bytes :: nat
  r_sha256 :: string

definition listing_of :: "string \<Rightarrow> 't vault_entry \<Rightarrow> 't listing" where
  "listing_of vault_id meta =
     \<lparr>r_vault_id = vault_id,
      r_original_name = original_name meta,
      r_added_at = added_at meta,
      r_size_bytes = size_bytes meta,
      r_sha256 = (case sha256 meta of None \<Rightarrow> [] | Some h \<Rightarrow> h)\<rparr>"

definition backing_exists :: "fs_state \<Rightarrow> 't vault_entry \<Rightarrow> bool" where
  "backing_exists fs meta = path_exists fs (joinpath VAULT_DIR (vault_file meta))"

fun list_loop :: "fs_state \<Rightarrow> 't vault_index \<Rightarrow> 't listing list \<Rightarrow> 't listing list" where
  "list_loop fs [] results = results"
| "list_loop fs ((vault_id, meta) # rest) results =
     (if backing_exists fs meta
      then list_loop fs rest (results @ [listing_of vault_id meta])
      else list_loop fs rest results)"

definition py_sort_desc :: "('a \<Rightarrow> 'k::linorder) \<Rightarrow> 'a list \<Rightarrow> 'a list" where
  "py_sort_desc k xs = rev (sort_key k (rev xs))"

definition list_files ::
  "('t::linorder) vault_manager \<Rightarrow> fs_state \<Rightarrow> 't vault_manager \<times> fs_state \<times> 't listing list" where
  "list_files vm fs =
     (let results = list_loop fs (vm_index vm) []
      in (vm, fs, py_sort_desc r_added_at results))"

text \<open>
  \<open>extract_file\<close>.  \<open>pathlib\<close> splits the last component of a path at its last dot,
  unless that dot is the first or the last character.  \<open>str_nat\<close> is \<open>str\<close> on a
  non-negative integer.  The \<open>while\<close> loop that looks for a free output name has no
  bound in the source; \<open>free_out_path\<close> is \<open>None\<close> where it does not end, and so is
  \<open>extract_file\<close>.
\<close>

definition rfind_dot :: "string \<Rightarrow> nat option" where
  "rfind_dot name =
     (let k = length (takeWhile (\<lambda>c. c \<noteq> CHR ''.'') (rev name))
      in if k = length name then None else Some (length name - 1 - k))"

definition py_suffix :: "string \<Rightarrow> string" where
  "py_suffix name =
     (case rfind_dot name of
        None \<Rightarrow> []
      | Some i \<Rightarrow> if 0 < i \<and> i + 1 < length name then drop i name else [])"

definition py_stem :: "string \<Rightarrow> string" where
  "py_stem name =
     (case rfind_dot name of
        None \<Rightarrow> name
      | Some i \<Rightarrow> if 0 < i \<and> i + 1 < length name then take i name else name)"

definition digit_char :: "nat \<Rightarrow> char" where
  "digit_char d = ''0123456789'' ! d"

fun str_nat :: "nat \<Rightarrow> string" where
  "str_nat n = (if n < 10 then [digit_char n] else str_nat (n div 10) @ [digit_char (n mod 10)])"

definition numbered_path :: "path \<Rightarrow> string \<Rightarrow> string \<Rightarrow> nat \<Rightarrow> path" where
  "numbered_path destination_dir stem suffix counter =
     joinpath destination_dir (stem @ ''_'' @ str_nat counter @ suffix)"

partial_function (option) free_out_path ::
  "fs_state \<Rightarrow> path \<Rightarrow> string \<Rightarrow> string \<Rightarrow> path \<Rightarrow> nat \<Rightarrow> path option" where
  "free_out_path fs destination_dir stem suffix out_path counter =
     (if path_exists fs out_path
      then free_out_path fs destination_dir stem suffix
             (numbered_path destination_dir stem suffix counter) (counter + 1)
      else Some out_path)"

definition extract_file ::
  "sha_fn \<Rightarrow> 't vault_manager \<Rightarrow> fs_state \<Rightarrow> string \<Rightarrow> path
     \<Rightarrow> (fs_state \<times> path option \<times> vault_msg list) option" where
  "extract_file sha vm fs vault_id destination_dir =
     (case dict_get (vm_index vm) vault_id of
        None \<Rightarrow> Some (fs, None, [EntryNotFound vault_id])
      | Some meta \<Rightarrow>
          let vault_path = joinpath VAULT_DIR (vault_file meta)
          in if \<not> path_exists fs vault_path then Some (fs, None, [VaultFileMissing vault_path])
             else case read_bytes fs vault_path of
                    None \<Rightarrow> Some (fs, None, [ExtractError])
                  | Some ciphertext \<Rightarrow>
                      (case decrypt_file (vm_crypto vm) ciphertext of
                         None \<Rightarrow> Some (fs, None, [DecryptionFailed])
                       | Some plaintext \<Rightarrow>
                           let actual_hash = get_file_integrity_hash sha plaintext;
                               expected_hash = (case sha256 meta of None \<Rightarrow> [] | Some h \<Rightarrow> h)
                           in if expected_hash \<noteq> [] \<and> actual_hash \<noteq> expected_hash
                              then Some (fs, None, [IntegrityCheckFailed])
                              else
                                let out_path = joinpath destination_dir (original_name meta);
                                    stem = py_stem (path_name out_path);
                                    suffix = py_suffix (path_name out_path)
                                in case free_out_path fs destination_dir stem suffix out_path 1 of
                                     None \<Rightarrow> None
                                   | Some out \<Rightarrow>
                                       (case write_bytes fs out plaintext of
                                          None \<Rightarrow> Some (fs, None, [ExtractError])
                                        | Some fs' \<Rightarrow> Some (fs', Some out, []))))"


section \<open>Session controller: \<open>ui/main_window.py\<close>\<close>

definition MAX_FAILED_ATTEMPTS :: nat where "MAX_FAILED_ATTEMPTS = 5"
definition AUTO_LOCK_SECONDS :: nat where "AUTO_LOCK_SECONDS = 300"
definition LOCKOUT_SECONDS :: nat where "LOCKOUT_SECONDS = 30"
definition PAGE_LOGIN :: nat where "PAGE_LOGIN = 0"
definition PAGE_VAULT :: nat where "PAGE_VAULT = 1"

text \<open>
  The fields of \<open>MainWindow\<close> that the authentication logic reads or writes, and the
  part of the Qt event loop it relies on: a clock in milliseconds, the deadlines of the
  pending \<open>QTimer.singleShot(LOCKOUT_SECONDS * 1000, self._end_lockout)\<close> timers, and
  the deadline of the single-shot auto-lock timer while it runs.  \<open>error_label\<close> is the
  message shown on the login screen.  Widgets, the tray icon and the security log are
  left out.
\<close>

datatype ui_msg =
    TooManyFailures
  | UsbNotConnected
  | WrongSecret int
  | LockedFor

record 'vm main_window =
  usb_path :: "path option"
  vault_manager :: "'vm option"
  failed_attempts :: nat
  locked_out :: bool
  page :: nat
  clock :: nat
  lockout_timers :: "nat list"
  auto_lock_at :: "nat option"
  error_label :: "ui_msg option"


text \<open>
  The secret that the login screen hands over is a Python \<open>str\<close>: a list of Unicode
  code points.  \<open>str.strip()\<close> removes from both ends the code points for which
  \<open>str.isspace\<close> holds; \<open>is_space\<close> is CPython's table of them.
\<close>

type_synonym pystr = "nat list"

definition is_space :: "nat \<Rightarrow> bool" where
  "is_space c =
     ((9 \<le> c \<and> c \<le> 13) \<or> (28 \<le> c \<and> c \<le> 32) \<or> c = 133 \<or> c = 160 \<or> c = 5760
      \<or> (8192 \<le> c \<and> c \<le> 8202) \<or> c = 8232 \<or> c = 8233 \<or> c = 8239 \<or> c = 8287
      \<or> c = 12288)"

definition py_strip :: "pystr \<Rightarrow> pystr" where
  "py_strip s = rev (dropWhile is_space (rev (dropWhile is_space s)))"

definition trigger_lockout :: "'vm main_window \<Rightarrow> 'vm main_window" where
  "trigger_lockout s =
     s\<lparr>locked_out := True, error_label := Some LockedFor,
       lockout_timers := lockout_timers s @ [clock s + LOCKOUT_SECONDS * 1000]\<rparr>"

definition end_lockout :: "'vm main_window \<Rightarrow> 'vm main_window" where
  "end_lockout s = s\<lparr>locked_out := False, failed_attempts := 0, error_label := None\<rparr>"

definition switch_to_vault :: "'vm main_window \<Rightarrow> 'vm main_window" where
  "switch_to_vault s =
     s\<lparr>page := PAGE_VAULT, auto_lock_at := Some (clock s + AUTO_LOCK_SECONDS * 1000)\<rparr>"

definition lock_vault :: "'vm main_window \<Rightarrow> 'vm main_window" where
  "lock_vault s = s\<lparr>auto_lock_at := None, vault_manager := None, page := PAGE_LOGIN\<rparr>"

definition auto_lock :: "'vm main_window \<Rightarrow> 'vm main_window" where
  "auto_lock s = lock_vault s"

definition on_usb_connected :: "path \<Rightarrow> 'vm main_window \<Rightarrow> 'vm main_window" where
  "on_usb_connected p s = s\<lparr>usb_path := Some p\<rparr>"

definition on_usb_disconnected :: "'vm main_window \<Rightarrow> 'vm main_window" where
  "on_usb_disconnected s =
     (let s1 = s\<lparr>usb_path := None\<rparr>
      in if page s1 = PAGE_VAULT then lock_vault s1 else s1)"

text \<open>
  \<open>_on_unlock_requested\<close>.  \<open>load\<close> is \<open>load_usb_key\<close> on the disk of the moment,
  taking the secret as a \<open>str\<close>;
  \<open>open_vault\<close> is \<open>VaultCrypto(master_key)\<close> followed by \<open>VaultManager(crypto)\<close>,
  \<open>None\<close> where a constructor raises (a key that is not 32 bytes long, a vault
  directory that cannot be created).  The slot has no handler of its own, so the result
  is \<open>None\<close> then.  \<open>not master_key\<close> holds for \<open>None\<close> and for the empty
  \<open>bytearray\<close>; \<open>unlock_failed\<close> is the body of that \<open>if\<close>.
\<close>

type_synonym load_fn = "path \<Rightarrow> pystr \<Rightarrow> bool \<Rightarrow> bytes option"

definition unlock_failed :: "'vm main_window \<Rightarrow> 'vm main_window" where
  "unlock_failed s =
     (let s1 = s\<lparr>failed_attempts := failed_attempts s + 1\<rparr>;
          remaining = int MAX_FAILED_ATTEMPTS - int (failed_attempts s1)
      in if failed_attempts s1 \<ge> MAX_FAILED_ATTEMPTS then trigger_lockout s1
         else s1\<lparr>error_label := Some (WrongSecret remaining)\<rparr>)"

definition on_unlock_requested ::
  "load_fn \<Rightarrow> (bytes \<Rightarrow> 'vm option) \<Rightarrow> pystr \<Rightarrow> bool \<Rightarrow> 'vm main_window
     \<Rightarrow> 'vm main_window option" where
  "on_unlock_requested load open_vault secret is_recovery s =
     (if locked_out s then Some (s\<lparr>error_label := Some TooManyFailures\<rparr>)
      else case usb_path s of
        None \<Rightarrow> Some (s\<lparr>error_label := Some UsbNotConnected\<rparr>)
      | Some p \<Rightarrow>
          (case load p (py_strip secret) is_recovery of
             None \<Rightarrow> Some (unlock_failed s)
           | Some master_key \<Rightarrow>
               if master_key = [] then Some (unlock_failed s)
               else
                 (let s1 = s\<lparr>failed_attempts := 0, locked_out := False, error_label := None\<rparr>
                  in case open_vault master_key of
                       None \<Rightarrow> None
                     | Some vm \<Rightarrow> Some (switch_to_vault (s1\<lparr>vault_manager := Some vm\<rparr>)))))"

text \<open>
  The passing of \<open>dt\<close> milliseconds: every lockout timer that is due calls
  \<open>_end_lockout\<close> and is gone, and the auto-lock timer, if due, calls \<open>_auto_lock\<close>.
\<close>

definition fire_timers :: "'vm main_window \<Rightarrow> 'vm main_window" where
  "fire_timers s =
     (let due = filter (\<lambda>d. d \<le> clock s) (lockout_timers s);
          s1 = s\<lparr>lockout_timers := filter (\<lambda>d. \<not> d \<le> clock s) (lockout_timers s)\<rparr>;
          s2 = fold (\<lambda>d. end_lockout) due s1
      in case auto_lock_at s2 of
           None \<Rightarrow> s2
         | Some d \<Rightarrow> if d \<le> clock s2 then auto_lock s2 else s2)"

definition elapse :: "nat \<Rightarrow> 'vm main_window \<Rightarrow> 'vm main_window" where
  "elapse dt s = fire_timers (s\<lparr>clock := clock s + dt\<rparr>)"

datatype event =
    UnlockRequested pystr bool
  | Elapse nat
  | UsbConnected path
  | UsbDisconnected
  | LockRequested

fun step ::
  "load_fn \<Rightarrow> (bytes \<Rightarrow> 'vm option) \<Rightarrow> event \<Rightarrow> 'vm main_window \<Rightarrow> 'vm main_window option" where
  "step load open_vault (UnlockRequested secret is_recovery) s =
     on_unlock_requested load open_vault secret is_recovery s"
| "step load open_vault (Elapse dt) s = Some (elapse dt s)"
| "step load open_vault (UsbConnected p) s = Some (on_usb_connected p s)"
| "step load open_vault UsbDisconnected s = Some (on_usb_disconnected s)"
| "step load open_vault LockRequested s = Some (lock_vault s)"

fun run ::
  "load_fn \<Rightarrow> (bytes \<Rightarrow> 'vm option) \<Rightarrow> event list \<Rightarrow> 'vm main_window \<Rightarrow> 'vm main_window option" where
  "run load open_vault [] s = Some s"
| "run load open_vault (ev # evs) s =
     (case step load open_vault ev s of None \<Rightarrow> None | Some s' \<Rightarrow> run load open_vault evs s')"


section \<open>Notions used in the statements\<close>






text \<open>
  The system calls of three complete overwrite passes on a file of \<open>sz\<close> bytes, as
  \<open>secure_delete\<close> issues them when nothing fails.
\<close>

definition three_passes :: "(nat \<Rightarrow> nat \<Rightarrow> bytes) \<Rightarrow> nat \<Rightarrow> io_event list" where
  "three_passes token_bytes sz =
     concat (map (\<lambda>i. [Seek i 0, WriteAt i (token_bytes i sz), Flush i, Fsync i]) [0, 1, 2])"


text \<open>
  The states in which a crash can leave the disk while a sequence of file operations
  runs: the state before the first operation and the state after each one that
  succeeded.  \<open>contents_during p\<close> lists what the file \<open>p\<close> holds in them, and
  \<open>old_or_new old new\<close> says of such a list that every item is the old contents or
  the complete new contents.  \<open>atomic_write_ops\<close> is the way of writing that the
  specification describes: fill a temporary file, then replace.
\<close>

fun states_during :: "fs_op list \<Rightarrow> fs_state \<Rightarrow> fs_state list" where
  "states_during [] fs = [fs]"
| "states_during (x # xs) fs =
     fs # (case apply_op x fs of None \<Rightarrow> [] | Some fs' \<Rightarrow> states_during xs fs')"

definition contents_during :: "path \<Rightarrow> fs_op list \<Rightarrow> fs_state \<Rightarrow> bytes option list" where
  "contents_during p ops fs = map (\<lambda>s. files s p) (states_during ops fs)"

definition old_or_new :: "bytes option \<Rightarrow> bytes \<Rightarrow> bytes option list \<Rightarrow> bool" where
  "old_or_new old new cs = list_all (\<lambda>c. c = old \<or> c = Some new) cs"

definition atomic_write_ops :: "path \<Rightarrow> path \<Rightarrow> bytes \<Rightarrow> fs_op list" where
  "atomic_write_ops tmp p data = write_bytes_ops tmp data @ [Replace tmp p]"

section \<open>Example inputs\<close>

text \<open>
  Stand-ins for the cryptographic library, small enough to be evaluated: a key derivation
  that depends on the length of the secret only, and an ``encryption'' that appends the
  key to the plaintext.  They are used to run the model on concrete inputs, nowhere else.
\<close>

definition demo_kdf :: kdf_fn where
  "demo_kdf len salt iters secret = Some (replicate len (of_nat (length secret)))"

definition demo_enc :: aead_fn where
  "demo_enc key nonce pt aad = Some (pt @ key)"

definition demo_dec :: aead_fn where
  "demo_dec key nonce ct aad =
     (if length key \<le> length ct \<and> drop (length ct - length key) ct = key
      then Some (take (length ct - length key) ct) else None)"

definition demo_draws :: key_draws where
  "demo_draws = \<lparr>d_salt_pw = replicate 32 1, d_salt_recovery = replicate 32 2,
     d_nonce = replicate 12 3, d_master_key = replicate 32 7, d_urlsafe = ''q7Xb-2m_Zr9KdT0w''\<rparr>"

definition empty_fs :: fs_state where
  "empty_fs = \<lparr>files = Map.empty, no_write = {}, no_unlink = {}\<rparr>"








definition key_fs :: "bytes \<Rightarrow> fs_state" where
  "key_fs blob = \<lparr>files = [joinpath ''/media/usb'' KEY_FILE_NAME \<mapsto> blob], no_write = {},
     no_unlink = {}\<rparr>"

definition enrolled_blob :: bytes where
  "enrolled_blob = [3] @ replicate 32 1 @ replicate 32 2 @ replicate 12 3 @ [0, 65]
     @ ([3] @ replicate 32 7 @ replicate 32 19) @ ([3] @ replicate 32 7 @ replicate 32 16)"

definition odd_payload_blob :: bytes where
  "odd_payload_blob = [3] @ replicate 32 1 @ replicate 32 2 @ replicate 12 3 @ [0, 65]
     @ ([9] @ replicate 32 7 @ replicate 32 19) @ ([9] @ replicate 32 7 @ replicate 32 16)"

definition failing_kdf :: kdf_fn where
  "failing_kdf len salt iters secret = None"


definition demo_token_bytes :: "nat \<Rightarrow> nat \<Rightarrow> bytes" where
  "demo_token_bytes i n = replicate n (of_nat (160 + i))"

definition note_fs :: fs_state where
  "note_fs = \<lparr>files = [''/home/u/note.txt'' \<mapsto> [1, 2, 3, 4, 5]], no_write = {}, no_unlink = {}\<rparr>"


text \<open>
  A stand-in for SHA-256 that spells out the bytes in decimal, a stand-in for Fernet that
  puts a marker byte in front of the plaintext, and a vault with one entry.
\<close>

definition demo_sha :: sha_fn where
  "demo_sha data = ''h'' @ concat (map (\<lambda>b. str_nat (unat b) @ ''.'') data)"

definition demo_crypto :: vault_crypto where
  "demo_crypto =
     \<lparr>encrypt_file = (\<lambda>p. Some (238 # p)),
      decrypt_file = (\<lambda>c. case c of [] \<Rightarrow> None | b # p \<Rightarrow> if b = 238 then Some p else None)\<rparr>"

definition note_entry :: "string option \<Rightarrow> nat vault_entry" where
  "note_entry h = \<lparr>original_name = ''note.txt'', vault_file = ''aa.enc'', added_at = 5,
     size_bytes = 3, sha256 = h\<rparr>"

definition note_vm :: "string option \<Rightarrow> nat vault_manager" where
  "note_vm h = \<lparr>vm_crypto = demo_crypto, vm_index = [(''id1'', note_entry h)]\<rparr>"

definition vault_fs :: "bytes \<Rightarrow> fs_state" where
  "vault_fs ciphertext =
     \<lparr>files = [joinpath VAULT_DIR ''aa.enc'' \<mapsto> ciphertext, ''/out/note.txt'' \<mapsto> [9]],
      no_write = {}, no_unlink = {}\<rparr>"


text \<open>
  An environment for the vault manager (time stamps are natural numbers, printed in
  decimal; the index is serialised as the list of its keys), an empty vault, and a disk
  with two files of the same name in different directories.
\<close>

definition demo_env :: "nat vault_env" where
  "demo_env =
     \<lparr>env_sha = demo_sha, env_time_str = str_nat,
      env_dumps = (\<lambda>idx. str_encode (concat (map fst idx))),
      env_faulty = (\<lambda>e. False), env_token_bytes = demo_token_bytes\<rparr>"

definition empty_vm :: "nat vault_manager" where
  "empty_vm = \<lparr>vm_crypto = demo_crypto, vm_index = []\<rparr>"

definition two_notes_fs :: fs_state where
  "two_notes_fs =
     \<lparr>files = [''/home/u/note.txt'' \<mapsto> [1, 2, 3], ''/tmp/note.txt'' \<mapsto> [4, 5]],
      no_write = {}, no_unlink = {}\<rparr>"

definition index_fs :: fs_state where
  "index_fs = \<lparr>files = [VAULT_INDEX \<mapsto> [238, 7, 7, 7]], no_write = {}, no_unlink = {}\<rparr>"

text \<open>
  Two calls of \<open>add_file\<close> on the empty vault: the note in the home directory, then the
  note of the same name in \<open>/tmp\<close>, while \<open>time.time()\<close> still returns the reading
  used for the name of the first.
\<close>

definition first_add :: "nat vault_manager \<times> fs_state \<times> bool \<times> vault_msg list" where
  "first_add = add_file demo_env empty_vm two_notes_fs ''/home/u/note.txt'' False 7 7"

definition second_add :: "nat vault_manager \<times> fs_state \<times> bool \<times> vault_msg list" where
  "second_add =
     add_file demo_env (fst first_add) (fst (snd first_add)) ''/tmp/note.txt'' False 7 8"

text \<open>
  A vault of three entries, and a disk on which the file of the second is missing.
\<close>

definition three_vm :: "nat vault_manager" where
  "three_vm =
     \<lparr>vm_crypto = demo_crypto,
      vm_index =
        [(''id1'', \<lparr>original_name = ''a.txt'', vault_file = ''aa.enc'', added_at = 5,
                    size_bytes = 3, sha256 = Some ''h1.2.3.''\<rparr>),
         (''id2'', \<lparr>original_name = ''b.txt'', vault_file = ''bb.enc'', added_at = 9,
                    size_bytes = 2, sha256 = Some ''h4.5.''\<rparr>),
         (''id3'', \<lparr>original_name = ''c.txt'', vault_file = ''cc.enc'', added_at = 7,
                    size_bytes = 1, sha256 = None\<rparr>)]\<rparr>"

definition three_fs :: fs_state where
  "three_fs =
     \<lparr>files = [joinpath VAULT_DIR ''aa.enc'' \<mapsto> [238, 1, 2, 3],
               joinpath VAULT_DIR ''cc.enc'' \<mapsto> [238, 6]],
      no_write = {}, no_unlink = {}\<rparr>"

section \<open>Facts about the file system model\<close>

lemma write_bytes_eq:
  "write_bytes fs p data =
     (if p \<in> no_write fs then None else Some (fs\<lparr>files := (files fs)(p \<mapsto> data)\<rparr>))"
  by (simp add: write_bytes_def write_bytes_ops_def)

section \<open>Key envelope: enrolment and opening\<close>

lemma from_to_bytes2:
  assumes "to_bytes2_big n = Some bs"
  shows "from_bytes_big bs = n" and "length bs = 2"
proof -
  from assms have n: "n < 65536" and bs: "bs = [of_nat (n div 256), of_nat (n mod 256)]"
    by (auto simp: to_bytes2_big_def split: if_splits)
  have a: "unat (of_nat (n div 256) :: byte) = n div 256"
    using n by (simp add: unat_of_nat)
  have b: "unat (of_nat (n mod 256) :: byte) = n mod 256"
    by (simp add: unat_of_nat)
  show "from_bytes_big bs = n" using a b by (simp add: bs from_bytes_big_def)
  show "length bs = 2" by (simp add: bs)
qed

lemma blob_parse:
  assumes "length sp = 32" "length sr = 32" "length no = 12" "length ln = 2"
    and blob_def: "blob = VERSION @ sp @ sr @ no @ ln @ cp @ cr"
  shows "py_slice blob 0 1 = VERSION"
    and "parse_key_blob blob False = (sp, no, py_slice (cp @ cr) 0 (from_bytes_big ln))"
    and "parse_key_blob blob True = (sr, no, drop (from_bytes_big ln) (cp @ cr))"
proof -
  let ?hdr = "VERSION @ sp @ sr @ no @ ln"
  have hl: "length ?hdr = 79" using assms(1-4) by (simp add: VERSION_def)
  have b: "blob = ?hdr @ cp @ cr" by (simp add: blob_def)
  have d: "drop (79 + n) blob = drop n (cp @ cr)" for n
    unfolding b using hl by (simp only: drop_append) simp
  have d0: "drop 79 blob = cp @ cr" using d [of 0] by simp
  have s: "take 32 (drop (Suc 0) blob) = sp" "take 32 (drop 33 blob) = sr"
    "take 12 (drop 65 blob) = no" "take 2 (drop 77 blob) = ln"
    using assms(1-4) by (simp_all add: blob_def VERSION_def)
  show "py_slice blob 0 1 = VERSION"
    by (simp add: blob_def py_slice_def VERSION_def)
  show "parse_key_blob blob False = (sp, no, py_slice (cp @ cr) 0 (from_bytes_big ln))"
    by (simp add: parse_key_blob_def py_slice_def SALT_SIZE_def NONCE_SIZE_def s d0)
  show "parse_key_blob blob True = (sr, no, drop (from_bytes_big ln) (cp @ cr))"
    by (simp add: parse_key_blob_def py_slice_def SALT_SIZE_def NONCE_SIZE_def s d)
qed

text \<open>
  Claim C1.  Whenever \<open>create_usb_key\<close> returns a recovery code \<open>R\<close> for the
  password \<open>P\<close>, opening the key file it wrote with \<open>P\<close> on the password path and
  with \<open>R\<close> on the recovery path both succeed, and both return the master key drawn at
  creation (32 bytes by \<open>draws_ok\<close>).  The cryptographic library enters through the
  one property that decryption inverts encryption under the same key, nonce and
  associated data.
\<close>

theorem create_then_load_roundtrip:
  assumes aead: "\<And>key nonce pt aad ct. enc key nonce pt aad = Some ct \<Longrightarrow> dec key nonce ct aad = Some pt"
    and draws: "draws_ok d"
    and create: "create_usb_key kdf enc fs usb P d = (fs', Some R)"
  shows "load_usb_key kdf dec fs' usb P False = Some (d_master_key d)
       \<and> load_usb_key kdf dec fs' usb R True = Some (d_master_key d)"
proof -
  let ?rc = "str_upper (take 16 (d_urlsafe d))"
  let ?payload = "VERSION @ d_master_key d"
  from create obtain key_pw key_rec ct_pw ct_rec len_pw where
      kp: "derive_key kdf P (d_salt_pw d) = Some key_pw"
    and kr: "derive_key kdf ?rc (d_salt_recovery d) = Some key_rec"
    and cp: "enc key_pw (d_nonce d) ?payload (d_salt_pw d) = Some ct_pw"
    and cr: "enc key_rec (d_nonce d) ?payload (d_salt_recovery d) = Some ct_rec"
    and ln: "to_bytes2_big (length ct_pw) = Some len_pw"
    and wr: "write_bytes fs (joinpath usb KEY_FILE_NAME)
               (VERSION @ d_salt_pw d @ d_salt_recovery d @ d_nonce d @ len_pw @ ct_pw @ ct_rec) = Some fs'"
    and R: "R = ?rc"
    by (auto simp: create_usb_key_def Let_def split: option.splits)
  have lens: "length (d_salt_pw d) = 32" "length (d_salt_recovery d) = 32"
      "length (d_nonce d) = 12" "length (d_master_key d) = 32"
    using draws by (simp_all add: draws_ok_def SALT_SIZE_def NONCE_SIZE_def AES_KEY_SIZE_def)
  have l2: "length len_pw = 2" and fl: "from_bytes_big len_pw = length ct_pw"
    using from_to_bytes2 [OF ln] by simp_all
  define blob where "blob = VERSION @ d_salt_pw d @ d_salt_recovery d @ d_nonce d @ len_pw @ ct_pw @ ct_rec"
  note bp = blob_parse [OF lens(1-3) l2 blob_def]
  from wr have ex: "path_exists fs' (joinpath usb KEY_FILE_NAME)"
    and rd: "read_bytes fs' (joinpath usb KEY_FILE_NAME) = Some blob"
    by (auto simp: write_bytes_eq path_exists_def read_bytes_def blob_def split: if_splits)
  have dp: "dec key_pw (d_nonce d) ct_pw (d_salt_pw d) = Some ?payload"
    by (rule aead [OF cp])
  have dr: "dec key_rec (d_nonce d) ct_rec (d_salt_recovery d) = Some ?payload"
    by (rule aead [OF cr])
  have mk: "py_slice ?payload 1 (1 + AES_KEY_SIZE) = d_master_key d"
    using lens(4) by (simp add: py_slice_def VERSION_def AES_KEY_SIZE_def)
  have pv: "take (length VERSION) ?payload = VERSION" by simp
  have pc: "py_slice (ct_pw @ ct_rec) 0 (length ct_pw) = ct_pw" by (simp add: py_slice_def)
  have dc: "drop (length ct_pw) (ct_pw @ ct_rec) = ct_rec" by simp
  have "load_usb_key_outcome kdf dec fs' usb P False = Inr (d_master_key d)"
    unfolding load_usb_key_outcome_def Let_def
    by (simp only: ex rd bp fl pc kp dp mk pv option.case prod.case if_True if_False simp_thms)
  moreover have "load_usb_key_outcome kdf dec fs' usb R True = Inr (d_master_key d)"
    unfolding load_usb_key_outcome_def Let_def
    by (simp only: ex rd bp fl dc R kr dr mk pv option.case prod.case if_True if_False simp_thms)
  ultimately show ?thesis by (simp add: load_usb_key_def)
qed


lemma demo_aead: "demo_enc key nonce pt aad = Some ct \<Longrightarrow> demo_dec key nonce ct aad = Some pt"
  by (auto simp: demo_enc_def demo_dec_def)

lemma str_upper_demo: "str_upper ''q7Xb-2m_Zr9KdT0w'' = ''Q7XB-2M_ZR9KDT0W''"
  by code_simp

theorem create_then_load_roundtrip_witness:
  "draws_ok demo_draws
   \<and> snd (create_usb_key demo_kdf demo_enc empty_fs ''/media/usb'' ''correcthorsebattery'' demo_draws)
       = Some ''Q7XB-2M_ZR9KDT0W''
   \<and> load_usb_key demo_kdf demo_dec
         (fst (create_usb_key demo_kdf demo_enc empty_fs ''/media/usb'' ''correcthorsebattery'' demo_draws))
         ''/media/usb'' ''correcthorsebattery'' False = Some (replicate 32 7)
   \<and> load_usb_key demo_kdf demo_dec
         (fst (create_usb_key demo_kdf demo_enc empty_fs ''/media/usb'' ''correcthorsebattery'' demo_draws))
         ''/media/usb'' ''Q7XB-2M_ZR9KDT0W'' True = Some (replicate 32 7)"
proof -
  let ?c = "create_usb_key demo_kdf demo_enc empty_fs ''/media/usb'' ''correcthorsebattery'' demo_draws"
  have d: "draws_ok demo_draws"
    by (simp add: draws_ok_def demo_draws_def SALT_SIZE_def NONCE_SIZE_def AES_KEY_SIZE_def)
  have r: "snd ?c = Some ''Q7XB-2M_ZR9KDT0W''"
    by (simp add: create_usb_key_def derive_key_def demo_kdf_def demo_enc_def demo_draws_def
        empty_fs_def to_bytes2_big_def write_bytes_eq VERSION_def AES_KEY_SIZE_def Let_def
        str_upper_demo)
  then have c: "?c = (fst ?c, Some ''Q7XB-2M_ZR9KDT0W'')"
    by (simp add: prod_eq_iff)
  have m: "d_master_key demo_draws = replicate 32 7" by (simp add: demo_draws_def)
  show ?thesis
    using create_then_load_roundtrip [of demo_enc demo_dec demo_draws demo_kdf empty_fs
        "''/media/usb''" "''correcthorsebattery''" "fst ?c" "''Q7XB-2M_ZR9KDT0W''", OF demo_aead d c]
      d r m by simp
qed


section \<open>Session controller: lockout\<close>

lemma run_append:
  "run load ov (xs @ ys) s = (case run load ov xs s of None \<Rightarrow> None | Some s' \<Rightarrow> run load ov ys s')"
  by (induction xs arbitrary: s) (auto split: option.splits)































section \<open>Key envelope: failures\<close>

text \<open>
  Claim C6.  Every way in which opening the key file can fail gives the caller the one
  value \<open>None\<close>, on the password path and on the recovery path alike: a missing key
  file; a file whose first byte is not the supported version (an empty file included); a
  key derivation that raises; a decryption that raises (tag mismatch, or a blob too short
  or too malformed to hold a nonce and a ciphertext); a decrypted payload that does not
  start with the version byte.  Conversely a key is returned only when all of these
  steps went through.  The debug line printed differs from cause to cause; the returned
  value does not.
\<close>

theorem load_usb_key_failure_opaque:
  "(\<not> path_exists fs (joinpath usb KEY_FILE_NAME)
      \<longrightarrow> load_usb_key kdf dec fs usb secret is_recovery = None)
   \<and> (\<forall>data. read_bytes fs (joinpath usb KEY_FILE_NAME) = Some data \<and> py_slice data 0 1 \<noteq> VERSION
      \<longrightarrow> load_usb_key kdf dec fs usb secret is_recovery = None)
   \<and> (\<forall>data salt nonce ct. read_bytes fs (joinpath usb KEY_FILE_NAME) = Some data
        \<and> parse_key_blob data is_recovery = (salt, nonce, ct)
        \<and> derive_key kdf secret salt = None
      \<longrightarrow> load_usb_key kdf dec fs usb secret is_recovery = None)
   \<and> (\<forall>data salt nonce ct key. read_bytes fs (joinpath usb KEY_FILE_NAME) = Some data
        \<and> parse_key_blob data is_recovery = (salt, nonce, ct)
        \<and> derive_key kdf secret salt = Some key \<and> dec key nonce ct salt = None
      \<longrightarrow> load_usb_key kdf dec fs usb secret is_recovery = None)
   \<and> (\<forall>data salt nonce ct key payload. read_bytes fs (joinpath usb KEY_FILE_NAME) = Some data
        \<and> parse_key_blob data is_recovery = (salt, nonce, ct)
        \<and> derive_key kdf secret salt = Some key \<and> dec key nonce ct salt = Some payload
        \<and> take 1 payload \<noteq> VERSION
      \<longrightarrow> load_usb_key kdf dec fs usb secret is_recovery = None)
   \<and> (\<forall>master_key. load_usb_key kdf dec fs usb secret is_recovery = Some master_key
      \<longrightarrow> (\<exists>data salt nonce ct key payload.
            read_bytes fs (joinpath usb KEY_FILE_NAME) = Some data \<and> py_slice data 0 1 = VERSION
          \<and> parse_key_blob data is_recovery = (salt, nonce, ct)
          \<and> derive_key kdf secret salt = Some key \<and> dec key nonce ct salt = Some payload
          \<and> take 1 payload = VERSION \<and> master_key = py_slice payload 1 33))"
  by (auto simp: load_usb_key_def load_usb_key_outcome_def Let_def path_exists_def read_bytes_def
      VERSION_def AES_KEY_SIZE_def split: option.splits prod.splits if_splits)

lemma key_fs_read: "read_bytes (key_fs blob) (joinpath ''/media/usb'' KEY_FILE_NAME) = Some blob"
  "path_exists (key_fs blob) (joinpath ''/media/usb'' KEY_FILE_NAME)"
  by (simp_all add: key_fs_def read_bytes_def path_exists_def)

lemma parse_enrolled:
  "parse_key_blob enrolled_blob False
     = (replicate 32 1, replicate 12 3, [3] @ replicate 32 7 @ replicate 32 19)"
  "parse_key_blob enrolled_blob True
     = (replicate 32 2, replicate 12 3, [3] @ replicate 32 7 @ replicate 32 16)"
  by (simp_all add: parse_key_blob_def enrolled_blob_def py_slice_def from_bytes_big_def
      SALT_SIZE_def NONCE_SIZE_def Let_def)

lemma parse_odd:
  "parse_key_blob odd_payload_blob False
     = (replicate 32 1, replicate 12 3, [9] @ replicate 32 7 @ replicate 32 19)"
  by (simp_all add: parse_key_blob_def odd_payload_blob_def py_slice_def from_bytes_big_def
      SALT_SIZE_def NONCE_SIZE_def Let_def)

lemma parse_short:
  "parse_key_blob [3, 1, 2] False = ([1, 2], [], [])"
  by (simp_all add: parse_key_blob_def py_slice_def from_bytes_big_def
      SALT_SIZE_def NONCE_SIZE_def Let_def)

theorem load_usb_key_failure_opaque_witness:
  "load_usb_key demo_kdf demo_dec empty_fs ''/media/usb'' ''correcthorsebattery'' False = None
   \<and> load_usb_key demo_kdf demo_dec empty_fs ''/media/usb'' ''Q7XB-2M_ZR9KDT0W'' True = None
   \<and> load_usb_key demo_kdf demo_dec (key_fs (2 # replicate 200 0)) ''/media/usb''
         ''correcthorsebattery'' False = None
   \<and> load_usb_key failing_kdf demo_dec (key_fs enrolled_blob) ''/media/usb''
         ''correcthorsebattery'' False = None
   \<and> load_usb_key demo_kdf demo_dec (key_fs [3, 1, 2]) ''/media/usb''
         ''correcthorsebattery'' False = None
   \<and> load_usb_key demo_kdf demo_dec (key_fs enrolled_blob) ''/media/usb'' ''hunter22'' False = None
   \<and> load_usb_key demo_kdf demo_dec (key_fs enrolled_blob) ''/media/usb'' ''hunter22'' True = None
   \<and> load_usb_key demo_kdf demo_dec (key_fs odd_payload_blob) ''/media/usb''
         ''correcthorsebattery'' False = None"
proof -
  note T = load_usb_key_failure_opaque
  have a: "\<not> path_exists empty_fs (joinpath ''/media/usb'' KEY_FILE_NAME)"
    by (simp add: path_exists_def empty_fs_def)
  have c1: "load_usb_key demo_kdf demo_dec empty_fs ''/media/usb'' ''correcthorsebattery'' False = None"
    using T [of empty_fs "''/media/usb''" demo_kdf demo_dec "''correcthorsebattery''" False] a
    by blast
  have c2: "load_usb_key demo_kdf demo_dec empty_fs ''/media/usb'' ''Q7XB-2M_ZR9KDT0W'' True = None"
    using T [of empty_fs "''/media/usb''" demo_kdf demo_dec "''Q7XB-2M_ZR9KDT0W''" True] a
    by blast
  have b: "py_slice (2 # replicate 200 0 :: bytes) 0 1 \<noteq> VERSION"
    by (simp add: py_slice_def VERSION_def)
  have c3: "load_usb_key demo_kdf demo_dec (key_fs (2 # replicate 200 0)) ''/media/usb''
         ''correcthorsebattery'' False = None"
    using T [of "key_fs (2 # replicate 200 0)" "''/media/usb''" demo_kdf demo_dec
        "''correcthorsebattery''" False] key_fs_read(1) b
    by blast
  have k: "derive_key failing_kdf ''correcthorsebattery'' (replicate 32 1) = None"
    by (simp add: derive_key_def failing_kdf_def)
  have c4: "load_usb_key failing_kdf demo_dec (key_fs enrolled_blob) ''/media/usb''
         ''correcthorsebattery'' False = None"
    using T [of "key_fs enrolled_blob" "''/media/usb''" failing_kdf demo_dec
        "''correcthorsebattery''" False] key_fs_read(1) parse_enrolled(1) k
    by blast
  have d5: "derive_key demo_kdf ''correcthorsebattery'' [1, 2] = Some (replicate 32 19)"
    "demo_dec (replicate 32 19) [] [] [1, 2] = None"
    by (simp_all add: derive_key_def demo_kdf_def demo_dec_def AES_KEY_SIZE_def)
  have c5: "load_usb_key demo_kdf demo_dec (key_fs [3, 1, 2]) ''/media/usb''
         ''correcthorsebattery'' False = None"
    using T [of "key_fs [3, 1, 2]" "''/media/usb''" demo_kdf demo_dec
        "''correcthorsebattery''" False] key_fs_read(1) parse_short d5
    by blast
  have d6: "derive_key demo_kdf ''hunter22'' (replicate 32 1) = Some (replicate 32 8)"
    "demo_dec (replicate 32 8) (replicate 12 3) ([3] @ replicate 32 7 @ replicate 32 19)
       (replicate 32 1) = None"
    "derive_key demo_kdf ''hunter22'' (replicate 32 2) = Some (replicate 32 8)"
    "demo_dec (replicate 32 8) (replicate 12 3) ([3] @ replicate 32 7 @ replicate 32 16)
       (replicate 32 2) = None"
    by (simp_all add: derive_key_def demo_kdf_def demo_dec_def AES_KEY_SIZE_def)
  have c6: "load_usb_key demo_kdf demo_dec (key_fs enrolled_blob) ''/media/usb'' ''hunter22'' False = None"
    using T [of "key_fs enrolled_blob" "''/media/usb''" demo_kdf demo_dec "''hunter22''" False]
      key_fs_read(1) parse_enrolled(1) d6(1,2)
    by blast
  have c7: "load_usb_key demo_kdf demo_dec (key_fs enrolled_blob) ''/media/usb'' ''hunter22'' True = None"
    using T [of "key_fs enrolled_blob" "''/media/usb''" demo_kdf demo_dec "''hunter22''" True]
      key_fs_read(1) parse_enrolled(2) d6(3,4)
    by blast
  have d8: "derive_key demo_kdf ''correcthorsebattery'' (replicate 32 1) = Some (replicate 32 19)"
    "demo_dec (replicate 32 19) (replicate 12 3) ([9] @ replicate 32 7 @ replicate 32 19)
       (replicate 32 1) = Some (9 # replicate 32 7)"
    "take 1 (9 # replicate 32 7 :: bytes) \<noteq> VERSION"
    by (simp_all add: derive_key_def demo_kdf_def demo_dec_def AES_KEY_SIZE_def VERSION_def)
  have c8: "load_usb_key demo_kdf demo_dec (key_fs odd_payload_blob) ''/media/usb''
         ''correcthorsebattery'' False = None"
    using T [of "key_fs odd_payload_blob" "''/media/usb''" demo_kdf demo_dec
        "''correcthorsebattery''" False] key_fs_read(1) parse_odd d8
    by blast
  show ?thesis using c1 c2 c3 c4 c5 c6 c7 c8 by blast
qed


section \<open>Storage engine: listing\<close>

lemma list_loop_eq:
  "list_loop fs idx acc =
     acc @ map (\<lambda>(i, m). listing_of i m) (filter (\<lambda>(i, m). backing_exists fs m) idx)"
  by (induction idx arbitrary: acc) auto

lemma sorted_py_sort_desc: "sorted (rev (map k (py_sort_desc k xs)))"
  by (simp add: py_sort_desc_def rev_map [symmetric] sorted_sort_key)

lemma mset_py_sort_desc: "mset (py_sort_desc k xs) = mset xs"
  by (simp add: py_sort_desc_def)

text \<open>
  Claim C7.  For every index and every disk, the list returned by \<open>list_files\<close> holds,
  for each index entry whose file \<open>VAULT_DIR / meta["vault_file"]\<close> is on the disk, one
  result with the entry's identifier, name, time stamp, size and hash (the empty string
  where the entry has none), and nothing else: entries whose file is missing are left
  out.  The \<open>added_at\<close> values of the list are in descending order.
\<close>

theorem list_files_existing_sorted:
  "mset (snd (snd (list_files vm fs))) =
     mset (map (\<lambda>(vault_id, meta).
                 \<lparr>r_vault_id = vault_id, r_original_name = original_name meta,
                  r_added_at = added_at meta, r_size_bytes = size_bytes meta,
                  r_sha256 = (case sha256 meta of None \<Rightarrow> [] | Some h \<Rightarrow> h)\<rparr>)
            (filter (\<lambda>(vault_id, meta). files fs (joinpath VAULT_DIR (vault_file meta)) \<noteq> None)
               (vm_index vm)))
   \<and> sorted (rev (map r_added_at (snd (snd (list_files vm fs)))))"
proof -
  have f: "(\<lambda>(i, m). backing_exists fs m)
      = (\<lambda>(vault_id, meta). files fs (joinpath VAULT_DIR (vault_file meta)) \<noteq> None)"
    by (simp add: backing_exists_def path_exists_def fun_eq_iff)
  have l: "(\<lambda>(i, m). listing_of i m)
      = (\<lambda>(vault_id, meta).
                 \<lparr>r_vault_id = vault_id, r_original_name = original_name meta,
                  r_added_at = added_at meta, r_size_bytes = size_bytes meta,
                  r_sha256 = (case sha256 meta of None \<Rightarrow> [] | Some h \<Rightarrow> h)\<rparr>)"
    by (simp add: listing_of_def fun_eq_iff)
  show ?thesis
    by (simp add: list_files_def Let_def list_loop_eq mset_py_sort_desc sorted_py_sort_desc f l)
qed

text \<open>
  On a vault of three entries, added at times 5, 9 and 7, of which the second has lost
  its file, the list is the third entry followed by the first.
\<close>

theorem list_files_existing_sorted_witness:
  "mset (snd (snd (list_files three_vm three_fs))) =
     mset (map (\<lambda>(vault_id, meta).
                 \<lparr>r_vault_id = vault_id, r_original_name = original_name meta,
                  r_added_at = added_at meta, r_size_bytes = size_bytes meta,
                  r_sha256 = (case sha256 meta of None \<Rightarrow> [] | Some h \<Rightarrow> h)\<rparr>)
            (filter (\<lambda>(vault_id, meta). files three_fs (joinpath VAULT_DIR (vault_file meta)) \<noteq> None)
               (vm_index three_vm)))
   \<and> sorted (rev (map r_added_at (snd (snd (list_files three_vm three_fs)))))
   \<and> snd (snd (list_files three_vm three_fs)) =
       [\<lparr>r_vault_id = ''id3'', r_original_name = ''c.txt'', r_added_at = 7, r_size_bytes = 1,
          r_sha256 = []\<rparr>,
        \<lparr>r_vault_id = ''id1'', r_original_name = ''a.txt'', r_added_at = 5, r_size_bytes = 3,
          r_sha256 = ''h1.2.3.''\<rparr>]
   \<and> map fst (vm_index (fst (list_files three_vm three_fs))) = [''id1'', ''id2'', ''id3'']"
proof -
  have e: "snd (snd (list_files three_vm three_fs)) =
       [\<lparr>r_vault_id = ''id3'', r_original_name = ''c.txt'', r_added_at = 7, r_size_bytes = 1,
          r_sha256 = []\<rparr>,
        \<lparr>r_vault_id = ''id1'', r_original_name = ''a.txt'', r_added_at = 5, r_size_bytes = 3,
          r_sha256 = ''h1.2.3.''\<rparr>]"
    by (simp add: list_files_def Let_def three_vm_def three_fs_def backing_exists_def
        path_exists_def listing_of_def py_sort_desc_def joinpath_def VAULT_DIR_def)
  have k: "map fst (vm_index (fst (list_files three_vm three_fs))) = [''id1'', ''id2'', ''id3'']"
    by (simp add: list_files_def Let_def three_vm_def)
  show ?thesis
    using list_files_existing_sorted [of three_vm three_fs] e k by (intro conjI) simp_all
qed

text \<open>
  Claim C10.  \<open>list_files\<close> leaves the manager and the disk as they were: the
  in-memory index, the index file and the vault files are unchanged, so an entry whose
  backing file is missing is still in the index afterwards.
\<close>

theorem list_files_frame:
  "fst (list_files vm fs) = vm \<and> fst (snd (list_files vm fs)) = fs
   \<and> vm_index (fst (list_files vm fs)) = vm_index vm
   \<and> files (fst (snd (list_files vm fs))) = files fs"
  by (simp add: list_files_def Let_def)


section \<open>Storage engine: secure deletion\<close>

lemma overwrite_at0_full: "length data = length old \<Longrightarrow> overwrite_at0 old data = data"
  by (simp add: overwrite_at0_def)

lemma overwrite_loop_clean:
  assumes "\<And>e. \<not> faulty e" "\<And>i n. length (token_bytes i n) = n" "length content = sz"
  shows "overwrite_loop faulty token_bytes sz 0 3 content =
     (token_bytes 2 sz, three_passes token_bytes sz, True)"
  using assms
  by (simp add: numeral_3_eq_3 numeral_2_eq_2 three_passes_def overwrite_at0_full Let_def)

lemma last_trace_unlink: "last (snd (secure_delete_passes faulty token_bytes fs p n)) = Unlink p"
  by (simp add: secure_delete_passes_def Let_def split: option.splits prod.splits)


lemma secure_delete_removes:
  assumes "files fs p \<noteq> None" "p \<notin> no_unlink fs" "\<not> faulty (Unlink p)"
  shows "files (fst (secure_delete_passes faulty token_bytes fs p n)) p = None"
  using assms
  by (auto simp: secure_delete_passes_def Let_def fallback_unlink_def unlink_def
      split: option.splits prod.splits)

text \<open>
  Claim C8.  \<open>secure_delete\<close> on a file that can be opened and unlinked, with no I/O
  error, issues exactly: \<open>stat\<close>, \<open>open\<close>, then three times \<open>seek(0)\<close>, a write of
  as many random bytes as the file is long, \<open>flush\<close>, \<open>fsync\<close>, then \<open>close\<close> and
  \<open>unlink\<close>; the file is gone afterwards.  (Where only the unlink is refused, the file
  is left holding the bytes of the third pass.)  In every case, whatever fails, the last
  call attempted is the unlink of the file, and when the unlink itself is possible the
  file is gone even though an overwrite step failed.
\<close>

theorem secure_delete_three_passes:
  assumes rnd: "\<And>i n. length (token_bytes i n) = n"
  shows
    "(files fs p = Some content \<and> p \<notin> no_write fs \<and> p \<notin> no_unlink fs \<and> (\<forall>e. \<not> faulty e)
        \<longrightarrow> snd (secure_delete faulty token_bytes fs p)
              = [Stat p, OpenRW p] @ three_passes token_bytes (length content) @ [CloseRW p, Unlink p]
          \<and> files (fst (secure_delete faulty token_bytes fs p)) = (files fs)(p := None))
     \<and> (files fs p = Some content \<and> p \<notin> no_write fs \<and> p \<in> no_unlink fs \<and> (\<forall>e. \<not> faulty e)
        \<longrightarrow> files (fst (secure_delete faulty token_bytes fs p)) p
              = Some (token_bytes 2 (length content)))
     \<and> last (snd (secure_delete faulty token_bytes fs p)) = Unlink p
     \<and> (files fs p \<noteq> None \<and> p \<notin> no_unlink fs \<and> \<not> faulty (Unlink p)
        \<longrightarrow> files (fst (secure_delete faulty token_bytes fs p)) p = None)"
proof -
  have A: "snd (secure_delete faulty token_bytes fs p)
              = [Stat p, OpenRW p] @ three_passes token_bytes (length content) @ [CloseRW p, Unlink p]
          \<and> files (fst (secure_delete faulty token_bytes fs p)) = (files fs)(p := None)"
    if "files fs p = Some content" "p \<notin> no_write fs" "p \<notin> no_unlink fs" "\<forall>e. \<not> faulty e"
  proof -
    have l: "overwrite_loop faulty token_bytes (length content) 0 3 content =
       (token_bytes 2 (length content), three_passes token_bytes (length content), True)"
      using that(4) rnd by (intro overwrite_loop_clean) auto
    show ?thesis
      using that by (simp add: secure_delete_def secure_delete_passes_def Let_def l unlink_def)
  qed
  have B: "files (fst (secure_delete faulty token_bytes fs p)) p
              = Some (token_bytes 2 (length content))"
    if "files fs p = Some content" "p \<notin> no_write fs" "p \<in> no_unlink fs" "\<forall>e. \<not> faulty e"
  proof -
    have l: "overwrite_loop faulty token_bytes (length content) 0 3 content =
       (token_bytes 2 (length content), three_passes token_bytes (length content), True)"
      using that(4) rnd by (intro overwrite_loop_clean) auto
    show ?thesis
      using that
      by (simp add: secure_delete_def secure_delete_passes_def Let_def l unlink_def
          fallback_unlink_def)
  qed
  have C: "last (snd (secure_delete faulty token_bytes fs p)) = Unlink p"
    by (simp add: secure_delete_def last_trace_unlink)
  have D: "files (fst (secure_delete faulty token_bytes fs p)) p = None"
    if "files fs p \<noteq> None" "p \<notin> no_unlink fs" "\<not> faulty (Unlink p)"
    using that by (simp add: secure_delete_def secure_delete_removes)
  show ?thesis using A B C D by blast
qed


lemma demo_token_len: "length (demo_token_bytes i n) = n"
  by (simp add: demo_token_bytes_def)

theorem secure_delete_three_passes_witness:
  "snd (secure_delete (\<lambda>e. False) demo_token_bytes note_fs ''/home/u/note.txt'')
     = [Stat ''/home/u/note.txt'', OpenRW ''/home/u/note.txt'',
        Seek 0 0, WriteAt 0 [160, 160, 160, 160, 160], Flush 0, Fsync 0,
        Seek 1 0, WriteAt 1 [161, 161, 161, 161, 161], Flush 1, Fsync 1,
        Seek 2 0, WriteAt 2 [162, 162, 162, 162, 162], Flush 2, Fsync 2,
        CloseRW ''/home/u/note.txt'', Unlink ''/home/u/note.txt'']
   \<and> files (fst (secure_delete (\<lambda>e. False) demo_token_bytes note_fs ''/home/u/note.txt''))
        ''/home/u/note.txt'' = None
   \<and> files (fst (secure_delete (\<lambda>e. False) demo_token_bytes
        (note_fs\<lparr>no_unlink := {''/home/u/note.txt''}\<rparr>) ''/home/u/note.txt''))
        ''/home/u/note.txt'' = Some [162, 162, 162, 162, 162]
   \<and> last (snd (secure_delete (\<lambda>e. e = Flush 1) demo_token_bytes note_fs ''/home/u/note.txt''))
        = Unlink ''/home/u/note.txt''
   \<and> files (fst (secure_delete (\<lambda>e. e = Flush 1) demo_token_bytes note_fs ''/home/u/note.txt''))
        ''/home/u/note.txt'' = None"
proof -
  note T = secure_delete_three_passes [where token_bytes = demo_token_bytes, OF demo_token_len]
  have f: "files note_fs ''/home/u/note.txt'' = Some [1, 2, 3, 4, 5]"
    "''/home/u/note.txt'' \<notin> no_write note_fs" "''/home/u/note.txt'' \<notin> no_unlink note_fs"
    by (simp_all add: note_fs_def)
  have tp: "three_passes demo_token_bytes (length [1, 2, 3, 4, 5 :: byte])
      = [Seek 0 0, WriteAt 0 [160, 160, 160, 160, 160], Flush 0, Fsync 0,
         Seek 1 0, WriteAt 1 [161, 161, 161, 161, 161], Flush 1, Fsync 1,
         Seek 2 0, WriteAt 2 [162, 162, 162, 162, 162], Flush 2, Fsync 2]"
    by (simp add: three_passes_def demo_token_bytes_def numeral_eq_Suc)
  have t2: "demo_token_bytes 2 (length [1, 2, 3, 4, 5 :: byte]) = [162, 162, 162, 162, 162]"
    by (simp add: demo_token_bytes_def numeral_eq_Suc)
  have a: "snd (secure_delete (\<lambda>e. False) demo_token_bytes note_fs ''/home/u/note.txt'')
     = [Stat ''/home/u/note.txt'', OpenRW ''/home/u/note.txt'']
       @ three_passes demo_token_bytes (length [1, 2, 3, 4, 5 :: byte])
       @ [CloseRW ''/home/u/note.txt'', Unlink ''/home/u/note.txt'']
     \<and> files (fst (secure_delete (\<lambda>e. False) demo_token_bytes note_fs ''/home/u/note.txt''))
        = (files note_fs)(''/home/u/note.txt'' := None)"
    using T [where fs = note_fs and p = "''/home/u/note.txt''" and content = "[1, 2, 3, 4, 5]"
        and faulty = "\<lambda>e. False"] f by blast
  have b: "files (fst (secure_delete (\<lambda>e. False) demo_token_bytes
        (note_fs\<lparr>no_unlink := {''/home/u/note.txt''}\<rparr>) ''/home/u/note.txt''))
        ''/home/u/note.txt'' = Some (demo_token_bytes 2 (length [1, 2, 3, 4, 5 :: byte]))"
    using T [where fs = "note_fs\<lparr>no_unlink := {''/home/u/note.txt''}\<rparr>"
        and p = "''/home/u/note.txt''" and content = "[1, 2, 3, 4, 5]" and faulty = "\<lambda>e. False"] f by simp
  have c: "last (snd (secure_delete (\<lambda>e. e = Flush 1) demo_token_bytes note_fs ''/home/u/note.txt''))
        = Unlink ''/home/u/note.txt''"
    using T [where fs = note_fs and p = "''/home/u/note.txt''" and content = "[]"
        and faulty = "\<lambda>e. e = Flush 1"] by blast
  have d: "files (fst (secure_delete (\<lambda>e. e = Flush 1) demo_token_bytes note_fs ''/home/u/note.txt''))
        ''/home/u/note.txt'' = None"
    using T [where fs = note_fs and p = "''/home/u/note.txt''" and content = "[]"
        and faulty = "\<lambda>e. e = Flush 1"] f by simp
  have a': "files (fst (secure_delete (\<lambda>e. False) demo_token_bytes note_fs ''/home/u/note.txt''))
        ''/home/u/note.txt'' = None"
    using a by simp
  show ?thesis using a [unfolded tp] a' b [unfolded t2] c d by simp
qed


section \<open>Storage engine: extraction\<close>

text \<open>
  \<open>str\<close> is injective on the natural numbers, so the numbered output names are
  pairwise different and the search for a free one ends on every disk that holds finitely
  many files.
\<close>

lemma digit_char_inj:
  assumes "a < 10" "b < 10" "digit_char a = digit_char b"
  shows "a = b"
proof -
  have d: "distinct ''0123456789''" by simp
  have l: "length ''0123456789'' = 10" by simp
  show ?thesis
    using assms nth_eq_iff_index_eq [OF d, of a b] unfolding digit_char_def l by blast
qed

lemma str_nat_nonempty: "str_nat n \<noteq> []"
  by (subst str_nat.simps) simp

lemma str_nat_inj: "str_nat m = str_nat n \<Longrightarrow> m = n"
proof (induction m arbitrary: n rule: less_induct)
  case (less m)
  show ?case
  proof (cases "m < 10")
    case True
    then have m: "str_nat m = [digit_char m]" by (subst str_nat.simps) simp
    show ?thesis
    proof (cases "n < 10")
      case n: True
      then have "str_nat n = [digit_char n]" by (subst str_nat.simps) simp
      with m less.prems show ?thesis using digit_char_inj [OF True n] by simp
    next
      case False
      then have "str_nat n = str_nat (n div 10) @ [digit_char (n mod 10)]"
        by (subst str_nat.simps) simp
      with m less.prems str_nat_nonempty [of "n div 10"] show ?thesis by simp
    qed
  next
    case False
    then have m: "str_nat m = str_nat (m div 10) @ [digit_char (m mod 10)]"
      by (subst str_nat.simps) simp
    show ?thesis
    proof (cases "n < 10")
      case True
      then have "str_nat n = [digit_char n]" by (subst str_nat.simps) simp
      with m less.prems str_nat_nonempty [of "m div 10"] show ?thesis by simp
    next
      case n: False
      then have "str_nat n = str_nat (n div 10) @ [digit_char (n mod 10)]"
        by (subst str_nat.simps) simp
      with m less.prems have e: "str_nat (m div 10) = str_nat (n div 10)"
        and d: "digit_char (m mod 10) = digit_char (n mod 10)" by simp_all
      have "m div 10 < m" using False by simp
      from less.IH [OF this e] have q: "m div 10 = n div 10" .
      have r: "m mod 10 = n mod 10" using digit_char_inj [OF _ _ d] by simp
      show ?thesis using q r by (metis div_mult_mod_eq)
    qed
  qed
qed

lemma numbered_path_inj: "inj (numbered_path d stem suffix)"
  by (rule injI) (simp add: numbered_path_def joinpath_def str_nat_inj)

lemma free_out_path_returns:
  assumes fin: "finite (dom (files fs))"
  shows "\<exists>out. free_out_path fs d stem suffix out_path c = Some out \<and> files fs out = None
     \<and> (files fs out_path = None \<longrightarrow> out = out_path)"
proof -
  let ?np = "numbered_path d stem suffix"
  let ?K = "{k. ?np k \<in> dom (files fs)}"
  have fK: "finite ?K"
    using finite_vimageI [OF fin numbered_path_inj, of d stem suffix] by (simp add: vimage_def)
  define m where "m = card {k \<in> ?K. c \<le> k}"
  show ?thesis using m_def
  proof (induction m arbitrary: c out_path rule: less_induct)
    case (less m)
    show ?case
    proof (cases "path_exists fs out_path")
      case False
      then show ?thesis
        by (subst free_out_path.simps) (simp add: path_exists_def)
    next
      case True
      have u: "free_out_path fs d stem suffix out_path c
          = free_out_path fs d stem suffix (?np c) (c + 1)"
        using True by (subst free_out_path.simps) simp
      have ne: "files fs out_path \<noteq> None" using True by (simp add: path_exists_def)
      show ?thesis
      proof (cases "path_exists fs (?np c)")
        case False
        then have "free_out_path fs d stem suffix (?np c) (c + 1) = Some (?np c)"
          by (subst free_out_path.simps) simp
        with u False ne show ?thesis by (auto simp: path_exists_def)
      next
        case t: True
        then have cK: "c \<in> ?K" by (auto simp: path_exists_def)
        have "c \<in> {k \<in> ?K. c \<le> k}" "c \<notin> {k \<in> ?K. c + 1 \<le> k}"
          "{k \<in> ?K. c + 1 \<le> k} \<subseteq> {k \<in> ?K. c \<le> k}"
          using cK by auto
        then have sub: "{k \<in> ?K. c + 1 \<le> k} \<subset> {k \<in> ?K. c \<le> k}" by blast
        have "card {k \<in> ?K. c + 1 \<le> k} < card {k \<in> ?K. c \<le> k}"
          by (rule psubset_card_mono [OF _ sub]) (use fK in simp)
        from less.IH [OF this [folded less.prems] refl, of "?np c"] obtain out where
          "free_out_path fs d stem suffix (?np c) (c + 1) = Some out" "files fs out = None"
          by blast
        with u ne show ?thesis by auto
      qed
    qed
  qed
qed


lemma extract_file_hash_check:
  assumes "dict_get (vm_index vm) vault_id = Some meta"
    and "files fs (joinpath VAULT_DIR (vault_file meta)) = Some ciphertext"
    and "decrypt_file (vm_crypto vm) ciphertext = Some plaintext"
  shows "extract_file sha vm fs vault_id dest =
     (if (case sha256 meta of None \<Rightarrow> [] | Some h \<Rightarrow> h) \<noteq> []
         \<and> get_file_integrity_hash sha plaintext \<noteq> (case sha256 meta of None \<Rightarrow> [] | Some h \<Rightarrow> h)
      then Some (fs, None, [IntegrityCheckFailed])
      else case free_out_path fs dest (py_stem (path_name (joinpath dest (original_name meta))))
                  (py_suffix (path_name (joinpath dest (original_name meta))))
                  (joinpath dest (original_name meta)) 1 of
             None \<Rightarrow> None
           | Some out \<Rightarrow>
               (case write_bytes fs out plaintext of
                  None \<Rightarrow> Some (fs, None, [ExtractError])
                | Some fs' \<Rightarrow> Some (fs', Some out, [])))"
  using assms by (simp add: extract_file_def Let_def path_exists_def read_bytes_def)

lemma extract_file_writes:
  assumes "dict_get (vm_index vm) vault_id = Some meta"
    and e: "(case sha256 meta of None \<Rightarrow> [] | Some h \<Rightarrow> h) = []"
    and "files fs (joinpath VAULT_DIR (vault_file meta)) = Some ciphertext"
    and "decrypt_file (vm_crypto vm) ciphertext = Some plaintext"
    and "no_write fs = {}"
    and out: "free_out_path fs dest (py_stem (path_name (joinpath dest (original_name meta))))
        (py_suffix (path_name (joinpath dest (original_name meta))))
        (joinpath dest (original_name meta)) 1 = Some out"
  shows "extract_file s vm fs vault_id dest
           = Some (fs\<lparr>files := (files fs)(out \<mapsto> plaintext)\<rparr>, Some out, [])"
  unfolding extract_file_hash_check [OF assms(1,3,4)] e
  by (simp only: out write_bytes_eq assms(5) option.case if_False simp_thms empty_iff)


lemma note_names:
  "py_stem (path_name (joinpath ''/out'' ''note.txt'')) = ''note''"
  "py_suffix (path_name (joinpath ''/out'' ''note.txt'')) = ''.txt''"
  "numbered_path ''/out'' ''note'' ''.txt'' 1 = ''/out/note_1.txt''"
  by (simp_all add: py_stem_def py_suffix_def path_name_def joinpath_def rfind_dot_def
      numbered_path_def digit_char_def)

lemma note_free:
  "free_out_path (vault_fs c) ''/out'' ''note'' ''.txt'' (joinpath ''/out'' ''note.txt'') 1
     = Some ''/out/note_1.txt''"
proof -
  have 1: "path_exists (vault_fs c) (joinpath ''/out'' ''note.txt'')"
    by (simp add: path_exists_def vault_fs_def joinpath_def)
  have 2: "\<not> path_exists (vault_fs c) ''/out/note_1.txt''"
    by (simp add: path_exists_def vault_fs_def joinpath_def VAULT_DIR_def)
  show ?thesis
    by (subst free_out_path.simps, simp only: 1 if_True note_names(3),
        subst free_out_path.simps, simp only: 2 if_False)
qed

lemma note_lookup: "dict_get (vm_index (note_vm h)) ''id1'' = Some (note_entry h)"
  by (simp add: dict_get_def note_vm_def)

lemma note_file: "files (vault_fs c) (joinpath VAULT_DIR (vault_file (note_entry h))) = Some c"
  by (simp add: vault_fs_def note_entry_def joinpath_def VAULT_DIR_def)

lemma note_decrypt:
  "decrypt_file (vm_crypto (note_vm h)) [238, 1, 2, 3] = Some [1, 2, 3]"
  "decrypt_file (vm_crypto (note_vm h)) [0, 1, 2, 3] = None"
  by (simp_all add: note_vm_def demo_crypto_def)

lemma note_sha: "sha256 (note_entry h) = h" "original_name (note_entry h) = ''note.txt''"
  by (simp_all add: note_entry_def)

lemma demo_sha_123: "get_file_integrity_hash demo_sha [1, 2, 3] = ''h1.2.3.''"
  by (simp add: get_file_integrity_hash_def demo_sha_def digit_char_def)

text \<open>
  Claim C9.  For an entry whose \<open>sha256\<close> field is absent or empty, whose backing file
  exists and decrypts, on a disk with finitely many files and a writable destination,
  \<open>extract_file\<close> returns an output path that was free and writes the decrypted
  plaintext there, the original name itself when that is free.  The result is the same
  for every hash function: the recomputed hash is never compared with anything.
\<close>

theorem extract_file_no_stored_hash:
  assumes "dict_get (vm_index vm) vault_id = Some meta"
    and "sha256 meta = None \<or> sha256 meta = Some []"
    and "files fs (joinpath VAULT_DIR (vault_file meta)) = Some ciphertext"
    and "decrypt_file (vm_crypto vm) ciphertext = Some plaintext"
    and "finite (dom (files fs))" and "no_write fs = {}"
  shows "\<exists>out. extract_file sha vm fs vault_id dest
           = Some (fs\<lparr>files := (files fs)(out \<mapsto> plaintext)\<rparr>, Some out, [])
       \<and> files fs out = None
       \<and> (files fs (joinpath dest (original_name meta)) = None
            \<longrightarrow> out = joinpath dest (original_name meta))
       \<and> (\<forall>sha'. extract_file sha' vm fs vault_id dest = extract_file sha vm fs vault_id dest)"
proof -
  let ?o = "joinpath dest (original_name meta)"
  from free_out_path_returns [OF assms(5), of dest "py_stem (path_name ?o)"
      "py_suffix (path_name ?o)" ?o 1]
  obtain out where out0: "free_out_path fs dest (py_stem (path_name ?o)) (py_suffix (path_name ?o)) ?o 1
      = Some out \<and> files fs out = None \<and> (files fs ?o = None \<longrightarrow> out = ?o)"
    by (rule exE)
  have out: "free_out_path fs dest (py_stem (path_name ?o)) (py_suffix (path_name ?o)) ?o 1
      = Some out" "files fs out = None" "files fs ?o = None \<longrightarrow> out = ?o"
    using out0 by (rule conjunct1, rule conjunct2 [THEN conjunct1], rule conjunct2 [THEN conjunct2])
  have e: "(case sha256 meta of None \<Rightarrow> [] | Some h \<Rightarrow> h) = []"
    using assms(2) by auto
  have r: "extract_file s vm fs vault_id dest
           = Some (fs\<lparr>files := (files fs)(out \<mapsto> plaintext)\<rparr>, Some out, [])" for s
    by (rule extract_file_writes [OF assms(1) e assms(3,4,6) out(1)])
  have i: "\<forall>sha'. extract_file sha' vm fs vault_id dest = extract_file sha vm fs vault_id dest"
    by (simp add: r)
  show ?thesis
    by (rule exI [of _ out]) (intro conjI; fact r [of sha] out(2) out(3) i)
qed

theorem extract_file_no_stored_hash_witness:
  "(\<exists>out. extract_file demo_sha (note_vm None) (vault_fs [238, 1, 2, 3]) ''id1'' ''/out''
       = Some ((vault_fs [238, 1, 2, 3])
                 \<lparr>files := (files (vault_fs [238, 1, 2, 3]))(out \<mapsto> [1, 2, 3])\<rparr>, Some out, [])
       \<and> files (vault_fs [238, 1, 2, 3]) out = None)
   \<and> extract_file demo_sha (note_vm (Some [])) (vault_fs [238, 1, 2, 3]) ''id1'' ''/out''
       = Some ((vault_fs [238, 1, 2, 3])
                 \<lparr>files := (files (vault_fs [238, 1, 2, 3]))(''/out/note_1.txt'' \<mapsto> [1, 2, 3])\<rparr>,
               Some ''/out/note_1.txt'', [])"
proof -
  have fin: "finite (dom (files (vault_fs c)))" for c by (simp add: vault_fs_def)
  have nw: "no_write (vault_fs c) = {}" for c by (simp add: vault_fs_def)
  have h1: "sha256 (note_entry None) = None \<or> sha256 (note_entry None) = Some []"
    by (simp add: note_entry_def)
  have h2: "sha256 (note_entry (Some [])) = None \<or> sha256 (note_entry (Some [])) = Some []"
    by (simp add: note_entry_def)
  from extract_file_no_stored_hash [OF note_lookup h1 note_file note_decrypt(1) fin nw,
      of demo_sha "''/out''"]
  have a: "\<exists>out. extract_file demo_sha (note_vm None) (vault_fs [238, 1, 2, 3]) ''id1'' ''/out''
       = Some ((vault_fs [238, 1, 2, 3])
                 \<lparr>files := (files (vault_fs [238, 1, 2, 3]))(out \<mapsto> [1, 2, 3])\<rparr>, Some out, [])
       \<and> files (vault_fs [238, 1, 2, 3]) out = None"
    by (elim exE conjE, intro exI conjI)
  from extract_file_no_stored_hash [OF note_lookup h2 note_file note_decrypt(1) fin nw,
      of demo_sha "''/out''"]
  obtain out where
    o: "extract_file demo_sha (note_vm (Some [])) (vault_fs [238, 1, 2, 3]) ''id1'' ''/out''
       = Some ((vault_fs [238, 1, 2, 3])
                 \<lparr>files := (files (vault_fs [238, 1, 2, 3]))(out \<mapsto> [1, 2, 3])\<rparr>, Some out, [])"
    by (elim exE conjE)
  have e: "(case sha256 (note_entry (Some [])) of None \<Rightarrow> [] | Some h \<Rightarrow> h) = []"
    by (simp add: note_entry_def)
  have n: "original_name (note_entry (Some [])) = ''note.txt''" by (simp add: note_entry_def)
  have "extract_file demo_sha (note_vm (Some [])) (vault_fs [238, 1, 2, 3]) ''id1'' ''/out''
       = Some ((vault_fs [238, 1, 2, 3])
                 \<lparr>files := (files (vault_fs [238, 1, 2, 3]))(''/out/note_1.txt'' \<mapsto> [1, 2, 3])\<rparr>,
               Some ''/out/note_1.txt'', [])"
    by (rule extract_file_writes [OF note_lookup e note_file note_decrypt(1) nw])
      (simp only: n note_names note_free)
  with a show ?thesis by (intro conjI)
qed


text \<open>
  Claim C3, as amended.  For an entry whose backing file decrypts, whose stored hash is
  not empty and differs from the recomputed one, \<open>extract_file\<close> leaves the disk as it
  was and returns \<open>None\<close>, printing the integrity line.  A decryption failure also
  leaves the disk as it was and returns \<open>None\<close>, printing the decryption line: the
  returned values are the same, the printed lines differ.
\<close>

theorem extract_file_integrity_mismatch:
  assumes "dict_get (vm_index vm) vault_id = Some meta"
    and "files fs (joinpath VAULT_DIR (vault_file meta)) = Some ciphertext"
  shows "(\<forall>plaintext h. decrypt_file (vm_crypto vm) ciphertext = Some plaintext
            \<and> sha256 meta = Some h \<and> h \<noteq> [] \<and> get_file_integrity_hash sha plaintext \<noteq> h
          \<longrightarrow> extract_file sha vm fs vault_id dest = Some (fs, None, [IntegrityCheckFailed]))
       \<and> (decrypt_file (vm_crypto vm) ciphertext = None
          \<longrightarrow> extract_file sha vm fs vault_id dest = Some (fs, None, [DecryptionFailed]))"
proof -
  have "extract_file sha vm fs vault_id dest = Some (fs, None, [IntegrityCheckFailed])"
    if "decrypt_file (vm_crypto vm) ciphertext = Some plaintext" "sha256 meta = Some h" "h \<noteq> []"
      "get_file_integrity_hash sha plaintext \<noteq> h" for plaintext h
    using that by (simp add: extract_file_hash_check [OF assms that(1)])
  moreover have "extract_file sha vm fs vault_id dest = Some (fs, None, [DecryptionFailed])"
    if "decrypt_file (vm_crypto vm) ciphertext = None"
    using that assms by (simp add: extract_file_def Let_def path_exists_def read_bytes_def)
  ultimately show ?thesis by blast
qed


theorem extract_file_integrity_mismatch_witness:
  "extract_file demo_sha (note_vm (Some ''deadbeef'')) (vault_fs [238, 1, 2, 3]) ''id1'' ''/out''
     = Some (vault_fs [238, 1, 2, 3], None, [IntegrityCheckFailed])
   \<and> extract_file demo_sha (note_vm (Some ''deadbeef'')) (vault_fs [0, 1, 2, 3]) ''id1'' ''/out''
     = Some (vault_fs [0, 1, 2, 3], None, [DecryptionFailed])"
proof -
  have m: "get_file_integrity_hash demo_sha [1, 2, 3] \<noteq> ''deadbeef''"
    by (simp add: demo_sha_123)
  have a: "extract_file demo_sha (note_vm (Some ''deadbeef'')) (vault_fs [238, 1, 2, 3]) ''id1'' ''/out''
     = Some (vault_fs [238, 1, 2, 3], None, [IntegrityCheckFailed])"
    using extract_file_integrity_mismatch [OF note_lookup note_file, of "Some ''deadbeef''"
        "[238, 1, 2, 3]" demo_sha "''/out''"] note_decrypt(1) [of "Some ''deadbeef''"]
      note_sha(1) [of "Some ''deadbeef''"] m
    by simp
  have b: "extract_file demo_sha (note_vm (Some ''deadbeef'')) (vault_fs [0, 1, 2, 3]) ''id1'' ''/out''
     = Some (vault_fs [0, 1, 2, 3], None, [DecryptionFailed])"
    using extract_file_integrity_mismatch [OF note_lookup note_file, of "Some ''deadbeef''"
        "[0, 1, 2, 3]" demo_sha "''/out''"] note_decrypt(2) [of "Some ''deadbeef''"]
    by simp
  show ?thesis using a b by (intro conjI)
qed

text \<open>
  Claim C3, as stated, fails in two ways.  The value returned on an integrity mismatch is
  the value returned on a decryption failure.  And an entry whose stored hash is the
  empty string has a stored hash that differs from the recomputed one, yet its plaintext
  is written to the destination.
\<close>

theorem extract_file_mismatch_counterexample:
  "fst (snd (the (extract_file demo_sha (note_vm (Some ''deadbeef'')) (vault_fs [238, 1, 2, 3])
                    ''id1'' ''/out'')))
     = fst (snd (the (extract_file demo_sha (note_vm (Some ''deadbeef'')) (vault_fs [0, 1, 2, 3])
                    ''id1'' ''/out'')))
   \<and> extract_file demo_sha (note_vm (Some ''deadbeef'')) (vault_fs [238, 1, 2, 3]) ''id1'' ''/out''
     = Some (vault_fs [238, 1, 2, 3], None, [IntegrityCheckFailed])
   \<and> extract_file demo_sha (note_vm (Some ''deadbeef'')) (vault_fs [0, 1, 2, 3]) ''id1'' ''/out''
     = Some (vault_fs [0, 1, 2, 3], None, [DecryptionFailed])
   \<and> get_file_integrity_hash demo_sha [1, 2, 3] \<noteq> []
   \<and> extract_file demo_sha (note_vm (Some [])) (vault_fs [238, 1, 2, 3]) ''id1'' ''/out''
       = Some ((vault_fs [238, 1, 2, 3])
                 \<lparr>files := (files (vault_fs [238, 1, 2, 3]))(''/out/note_1.txt'' \<mapsto> [1, 2, 3])\<rparr>,
               Some ''/out/note_1.txt'', [])"
proof -
  have a: "extract_file demo_sha (note_vm (Some ''deadbeef'')) (vault_fs [238, 1, 2, 3]) ''id1'' ''/out''
     = Some (vault_fs [238, 1, 2, 3], None, [IntegrityCheckFailed])"
    by (simp add: extract_file_hash_check [OF note_lookup note_file note_decrypt(1)]
        note_sha demo_sha_123)
  have b: "extract_file demo_sha (note_vm (Some ''deadbeef'')) (vault_fs [0, 1, 2, 3]) ''id1'' ''/out''
     = Some (vault_fs [0, 1, 2, 3], None, [DecryptionFailed])"
    using note_lookup [of "Some ''deadbeef''"] note_file [of "[0, 1, 2, 3]" "Some ''deadbeef''"]
      note_decrypt(2) [of "Some ''deadbeef''"]
    by (simp add: extract_file_def Let_def path_exists_def read_bytes_def)
  have c: "get_file_integrity_hash demo_sha [1, 2, 3] \<noteq> []" by (simp add: demo_sha_123)
  have e: "(case sha256 (note_entry (Some [])) of None \<Rightarrow> [] | Some h \<Rightarrow> h) = []"
    by (simp add: note_entry_def)
  have nw: "no_write (vault_fs c) = {}" for c by (simp add: vault_fs_def)
  have d: "extract_file demo_sha (note_vm (Some [])) (vault_fs [238, 1, 2, 3]) ''id1'' ''/out''
       = Some ((vault_fs [238, 1, 2, 3])
                 \<lparr>files := (files (vault_fs [238, 1, 2, 3]))(''/out/note_1.txt'' \<mapsto> [1, 2, 3])\<rparr>,
               Some ''/out/note_1.txt'', [])"
    by (rule extract_file_writes [OF note_lookup e note_file note_decrypt(1) nw])
      (simp only: note_sha(2) note_names note_free)
  show ?thesis using a b c d by simp
qed


section \<open>Storage engine: persisting the index\<close>

text \<open>
  Writing to a temporary file and replacing keeps the target old or new at every moment,
  wherever the sequence stops; this is the property that the in-place write of
  \<open>_save_index\<close> is measured against.
\<close>

lemma atomic_write_old_or_new:
  assumes "tmp \<noteq> p"
  shows "old_or_new (files fs p) data (contents_during p (atomic_write_ops tmp p data) fs)"
  using assms
  by (simp add: old_or_new_def contents_during_def atomic_write_ops_def write_bytes_ops_def)

text \<open>
  Claim C4, as amended.  \<open>_save_index\<close> encrypts the serialised index and writes it in
  place with one \<open>write_bytes\<close> on the index path: the file is created or truncated,
  then filled, then closed.  No other path is touched.  Where the index path can be
  written the call leaves the new ciphertext in the file, and between the truncation and
  the write the file is empty; where it cannot, the call raises and nothing is written.
\<close>

theorem save_index_in_place:
  assumes "encrypt_file (vm_crypto vm) (env_dumps env (vm_index vm)) = Some ct"
  shows "save_index_ops env vm
           = Some [OpenTrunc VAULT_INDEX, WriteData VAULT_INDEX ct, CloseFile VAULT_INDEX]
       \<and> (VAULT_INDEX \<in> no_write fs \<longrightarrow> save_index env vm fs = None)
       \<and> (VAULT_INDEX \<notin> no_write fs \<longrightarrow>
            save_index env vm fs = Some (fs\<lparr>files := (files fs)(VAULT_INDEX \<mapsto> ct)\<rparr>)
          \<and> contents_during VAULT_INDEX
                [OpenTrunc VAULT_INDEX, WriteData VAULT_INDEX ct, CloseFile VAULT_INDEX] fs
              = [files fs VAULT_INDEX, Some [], Some ct, Some ct])"
  using assms
  by (simp add: save_index_ops_def save_index_def write_bytes_ops_def Let_def
      contents_during_def)

lemma demo_index_ct:
  "encrypt_file (vm_crypto (note_vm h)) (env_dumps demo_env (vm_index (note_vm h)))
     = Some [238, 105, 100, 49]"
  by (simp add: note_vm_def demo_crypto_def demo_env_def str_encode_def)

theorem save_index_in_place_witness:
  "save_index_ops demo_env (note_vm None)
     = Some [OpenTrunc VAULT_INDEX, WriteData VAULT_INDEX [238, 105, 100, 49], CloseFile VAULT_INDEX]
   \<and> save_index demo_env (note_vm None) index_fs
     = Some (index_fs\<lparr>files := (files index_fs)(VAULT_INDEX \<mapsto> [238, 105, 100, 49])\<rparr>)
   \<and> save_index demo_env (note_vm None) (index_fs\<lparr>no_write := {VAULT_INDEX}\<rparr>) = None"
proof -
  have w: "VAULT_INDEX \<notin> no_write index_fs" by (simp add: index_fs_def)
  have a: "save_index_ops demo_env (note_vm None)
     = Some [OpenTrunc VAULT_INDEX, WriteData VAULT_INDEX [238, 105, 100, 49], CloseFile VAULT_INDEX]"
    and b: "save_index demo_env (note_vm None) index_fs
     = Some (index_fs\<lparr>files := (files index_fs)(VAULT_INDEX \<mapsto> [238, 105, 100, 49])\<rparr>)"
    using save_index_in_place [OF demo_index_ct, of None index_fs] w by simp_all
  have c: "save_index demo_env (note_vm None) (index_fs\<lparr>no_write := {VAULT_INDEX}\<rparr>) = None"
    using save_index_in_place [OF demo_index_ct, of None "index_fs\<lparr>no_write := {VAULT_INDEX}\<rparr>"]
    by simp
  show ?thesis using a b c by (intro conjI)
qed

text \<open>
  Claim C4, as stated, fails: the operations issued contain no temporary file and no
  replace, and after the first of them the index file holds neither its old contents nor
  the new ones.
\<close>

theorem save_index_not_atomic_counterexample:
  "save_index_ops demo_env (note_vm None)
     = Some [OpenTrunc VAULT_INDEX, WriteData VAULT_INDEX [238, 105, 100, 49], CloseFile VAULT_INDEX]
   \<and> files index_fs VAULT_INDEX = Some [238, 7, 7, 7]
   \<and> contents_during VAULT_INDEX
        [OpenTrunc VAULT_INDEX, WriteData VAULT_INDEX [238, 105, 100, 49], CloseFile VAULT_INDEX]
        index_fs
       = [Some [238, 7, 7, 7], Some [], Some [238, 105, 100, 49], Some [238, 105, 100, 49]]
   \<and> \<not> old_or_new (Some [238, 7, 7, 7]) [238, 105, 100, 49]
        (contents_during VAULT_INDEX
           [OpenTrunc VAULT_INDEX, WriteData VAULT_INDEX [238, 105, 100, 49], CloseFile VAULT_INDEX]
           index_fs)"
  by (simp add: save_index_ops_def Let_def demo_index_ct write_bytes_ops_def index_fs_def
      old_or_new_def contents_during_def)


section \<open>Storage engine: adding a file\<close>

lemma dict_get_set_same: "dict_get (dict_set k v d) k = Some v"
  by (induction d) (auto simp: dict_get_def)

lemma dict_set_keys_present:
  "dict_get d k = Some old \<Longrightarrow> map fst (dict_set k v d) = map fst d"
  by (induction d) (auto simp: dict_get_def split: if_splits)

lemma fallback_unlink_other: "q \<noteq> p \<Longrightarrow> files (fallback_unlink faulty fs p) q = files fs q"
  by (auto simp: fallback_unlink_def unlink_def split: option.splits)

lemma secure_delete_other:
  "q \<noteq> p \<Longrightarrow> files (fst (secure_delete faulty tb fs p)) q = files fs q"
  by (auto simp: secure_delete_def secure_delete_passes_def Let_def fallback_unlink_other
      unlink_def split: option.splits prod.splits if_splits)

lemma save_index_eq:
  "save_index env vm fs =
     (case encrypt_file (vm_crypto vm) (env_dumps env (vm_index vm)) of
        None \<Rightarrow> None
      | Some ct \<Rightarrow> write_bytes fs VAULT_INDEX ct)"
  by (simp add: save_index_def save_index_ops_def write_bytes_def Let_def split: option.splits)

lemma add_file_ok:
  assumes rd: "read_bytes fs source_path = Some plaintext"
    and enc: "encrypt_file (vm_crypto vm) plaintext = Some ciphertext"
    and stem: "vault_stem = env_sha env (str_encode (path_name source_path @ env_time_str env t_stem))"
    and meta: "meta = \<lparr>original_name = path_name source_path,
                  vault_file = path_name (joinpath VAULT_DIR (vault_stem @ ''.enc'')),
                  added_at = t_added, size_bytes = length plaintext,
                  sha256 = Some (get_file_integrity_hash (env_sha env) plaintext)\<rparr>"
    and ict: "encrypt_file (vm_crypto vm)
                (env_dumps env (dict_set (take 16 vault_stem) meta (vm_index vm))) = Some ict"
    and nw: "no_write fs = {}"
  shows "add_file env vm fs source_path wipe t_stem t_added =
     (vm\<lparr>vm_index := dict_set (take 16 vault_stem) meta (vm_index vm)\<rparr>,
      (if wipe
       then fst (secure_delete (env_faulty env) (env_token_bytes env)
                  (fs\<lparr>files := (files fs)(joinpath VAULT_DIR (vault_stem @ ''.enc'') \<mapsto> ciphertext,
                                             VAULT_INDEX \<mapsto> ict)\<rparr>) source_path)
       else fs\<lparr>files := (files fs)(joinpath VAULT_DIR (vault_stem @ ''.enc'') \<mapsto> ciphertext,
                                      VAULT_INDEX \<mapsto> ict)\<rparr>),
      True, [])"
proof -
  let ?vp = "joinpath VAULT_DIR (vault_stem @ ''.enc'')"
  let ?vm1 = "vm\<lparr>vm_index := dict_set (take 16 vault_stem) meta (vm_index vm)\<rparr>"
  let ?fs1 = "fs\<lparr>files := (files fs)(?vp \<mapsto> ciphertext)\<rparr>"
  let ?fs2 = "fs\<lparr>files := (files fs)(?vp \<mapsto> ciphertext, VAULT_INDEX \<mapsto> ict)\<rparr>"
  have w1: "write_bytes fs ?vp ciphertext = Some ?fs1" by (simp add: write_bytes_eq nw)
  have s1: "save_index env ?vm1 ?fs1 = Some ?fs2"
    using ict by (simp add: save_index_eq write_bytes_eq nw)
  show ?thesis
    using s1 unfolding meta add_file_def Let_def stem [symmetric]
    by (simp only: rd enc w1 option.case)
qed

lemma note_stem:
  "demo_sha (str_encode (path_name ''/home/u/note.txt'' @ str_nat 7))
     = ''h110.111.116.101.46.116.120.116.55.''"
  "demo_sha (str_encode (path_name ''/tmp/note.txt'' @ str_nat 7))
     = ''h110.111.116.101.46.116.120.116.55.''"
  by (simp_all add: demo_sha_def str_encode_def path_name_def digit_char_def)

lemma first_add_eq:
  "first_add =
     (\<lparr>vm_crypto = demo_crypto,
        vm_index = [(''h110.111.116.101'',
           \<lparr>original_name = ''note.txt'', vault_file = ''h110.111.116.101.46.116.120.116.55..enc'',
              added_at = 7, size_bytes = 3, sha256 = Some ''h1.2.3.''\<rparr>)]\<rparr>,
      two_notes_fs\<lparr>files := (files two_notes_fs)
         (joinpath VAULT_DIR ''h110.111.116.101.46.116.120.116.55..enc'' \<mapsto> [238, 1, 2, 3],
          VAULT_INDEX \<mapsto> 238 # str_encode ''h110.111.116.101'')\<rparr>,
      True, [])"
  unfolding first_add_def
  by (subst add_file_ok [where plaintext = "[1, 2, 3]" and ciphertext = "[238, 1, 2, 3]"
        and vault_stem = "''h110.111.116.101.46.116.120.116.55.''"
        and ict = "238 # str_encode ''h110.111.116.101''", OF _ _ _ refl])
    (simp_all add: read_bytes_def two_notes_fs_def empty_vm_def demo_crypto_def demo_env_def
      get_file_integrity_hash_def demo_sha_def digit_char_def path_name_def str_encode_def
      joinpath_def VAULT_DIR_def)


lemma first_add_parts:
  "vm_crypto (fst first_add) = demo_crypto"
  "vm_index (fst first_add) = [(''h110.111.116.101'',
           \<lparr>original_name = ''note.txt'', vault_file = ''h110.111.116.101.46.116.120.116.55..enc'',
              added_at = 7, size_bytes = 3, sha256 = Some ''h1.2.3.''\<rparr>)]"
  "read_bytes (fst (snd first_add)) ''/tmp/note.txt'' = Some [4, 5]"
  "no_write (fst (snd first_add)) = {}"
  "files (fst (snd first_add)) (joinpath VAULT_DIR ''h110.111.116.101.46.116.120.116.55..enc'')
     = Some [238, 1, 2, 3]"
  by (simp_all add: first_add_eq read_bytes_def two_notes_fs_def joinpath_def VAULT_DIR_def
      VAULT_INDEX_def)

lemma demo_crypto_total: "encrypt_file demo_crypto pt \<noteq> None"
  "encrypt_file demo_crypto pt = Some (238 # pt)"
  by (simp_all add: demo_crypto_def)

lemma demo_env_parts: "env_sha demo_env = demo_sha" "env_time_str demo_env = str_nat"
  by (simp_all add: demo_env_def)

text \<open>
  Claim C5, as amended.  \<open>add_file\<close> makes no collision check.  When the identifier
  derived from the name and the clock reading is already a key of the index, and reading,
  encrypting and writing succeed, \<open>add_file\<close> returns \<open>True\<close> and prints nothing; the
  entry under that key is replaced by the new entry, no key is added, and the storage
  file named by the hash holds the new ciphertext whatever it held before.
\<close>

theorem add_file_replaces_on_collision:
  assumes rd: "read_bytes fs source_path = Some plaintext"
    and enc: "encrypt_file (vm_crypto vm) plaintext = Some ciphertext"
    and tot: "\<And>pt. encrypt_file (vm_crypto vm) pt \<noteq> None"
    and stem: "vault_stem = env_sha env (str_encode (path_name source_path @ env_time_str env t_stem))"
    and coll: "dict_get (vm_index vm) (take 16 vault_stem) = Some old"
    and nw: "no_write fs = {}"
    and src: "source_path \<noteq> joinpath VAULT_DIR (vault_stem @ ''.enc'')"
    and idx: "VAULT_INDEX \<noteq> joinpath VAULT_DIR (vault_stem @ ''.enc'')"
  shows "\<exists>vm' fs'. add_file env vm fs source_path wipe t_stem t_added = (vm', fs', True, [])
     \<and> dict_get (vm_index vm') (take 16 vault_stem)
         = Some \<lparr>original_name = path_name source_path,
                  vault_file = path_name (joinpath VAULT_DIR (vault_stem @ ''.enc'')),
                  added_at = t_added, size_bytes = length plaintext,
                  sha256 = Some (get_file_integrity_hash (env_sha env) plaintext)\<rparr>
     \<and> map fst (vm_index vm') = map fst (vm_index vm)
     \<and> files fs' (joinpath VAULT_DIR (vault_stem @ ''.enc'')) = Some ciphertext"
proof -
  let ?vp = "joinpath VAULT_DIR (vault_stem @ ''.enc'')"
  let ?meta = "\<lparr>original_name = path_name source_path, vault_file = path_name ?vp,
                  added_at = t_added, size_bytes = length plaintext,
                  sha256 = Some (get_file_integrity_hash (env_sha env) plaintext)\<rparr>"
  let ?vm1 = "vm\<lparr>vm_index := dict_set (take 16 vault_stem) ?meta (vm_index vm)\<rparr>"
  obtain ict where ict: "encrypt_file (vm_crypto vm)
      (env_dumps env (dict_set (take 16 vault_stem) ?meta (vm_index vm))) = Some ict"
    using tot [of "env_dumps env (dict_set (take 16 vault_stem) ?meta (vm_index vm))"] by auto
  let ?fs2 = "fs\<lparr>files := (files fs)(?vp \<mapsto> ciphertext, VAULT_INDEX \<mapsto> ict)\<rparr>"
  let ?fs3 = "if wipe then fst (secure_delete (env_faulty env) (env_token_bytes env) ?fs2 source_path)
              else ?fs2"
  have r: "add_file env vm fs source_path wipe t_stem t_added = (?vm1, ?fs3, True, [])"
    by (rule add_file_ok [OF rd enc stem refl ict nw])
  have f: "files ?fs3 ?vp = Some ciphertext"
    using src idx by (simp add: secure_delete_other)
  have g: "dict_get (vm_index ?vm1) (take 16 vault_stem) = Some ?meta"
    by (simp add: dict_get_set_same)
  have k: "map fst (vm_index ?vm1) = map fst (vm_index vm)"
    using coll by (simp add: dict_set_keys_present)
  show ?thesis
    by (rule exI [of _ ?vm1], rule exI [of _ ?fs3]) (intro conjI; fact r g k f)
qed

theorem add_file_replaces_on_collision_witness:
  "\<exists>vm' fs'. second_add = (vm', fs', True, [])
     \<and> dict_get (vm_index vm') ''h110.111.116.101''
         = Some \<lparr>original_name = ''note.txt'',
                  vault_file = ''h110.111.116.101.46.116.120.116.55..enc'',
                  added_at = 8, size_bytes = 2, sha256 = Some ''h4.5.''\<rparr>
     \<and> map fst (vm_index vm') = [''h110.111.116.101'']
     \<and> files fs' (joinpath VAULT_DIR ''h110.111.116.101.46.116.120.116.55..enc'') = Some [238, 4, 5]"
proof -
  have coll: "dict_get (vm_index (fst first_add)) (take 16 ''h110.111.116.101.46.116.120.116.55.'')
      = Some \<lparr>original_name = ''note.txt'', vault_file = ''h110.111.116.101.46.116.120.116.55..enc'',
              added_at = 7, size_bytes = 3, sha256 = Some ''h1.2.3.''\<rparr>"
    by (simp add: first_add_parts dict_get_def)
  have enc: "encrypt_file (vm_crypto (fst first_add)) [4, 5] = Some [238, 4, 5]"
    by (simp add: first_add_parts demo_crypto_total)
  have tot: "encrypt_file (vm_crypto (fst first_add)) pt \<noteq> None" for pt
    by (simp add: first_add_parts demo_crypto_total)
  have stem: "''h110.111.116.101.46.116.120.116.55.''
      = env_sha demo_env (str_encode (path_name ''/tmp/note.txt'' @ env_time_str demo_env 7))"
    by (simp only: demo_env_parts note_stem)
  have src: "''/tmp/note.txt'' \<noteq> joinpath VAULT_DIR (''h110.111.116.101.46.116.120.116.55.'' @ ''.enc'')"
    and idx: "VAULT_INDEX \<noteq> joinpath VAULT_DIR (''h110.111.116.101.46.116.120.116.55.'' @ ''.enc'')"
    by (simp_all add: joinpath_def VAULT_DIR_def VAULT_INDEX_def)
  have m: "path_name ''/tmp/note.txt'' = ''note.txt''"
    "path_name (joinpath VAULT_DIR (''h110.111.116.101.46.116.120.116.55.'' @ ''.enc''))
       = ''h110.111.116.101.46.116.120.116.55..enc''"
    "get_file_integrity_hash (env_sha demo_env) [4, 5] = ''h4.5.''"
    by (simp_all add: path_name_def joinpath_def VAULT_DIR_def get_file_integrity_hash_def
        demo_env_parts demo_sha_def digit_char_def)
  from add_file_replaces_on_collision [OF first_add_parts(3) enc tot stem coll first_add_parts(4)
      src idx, of False 8]
  show ?thesis
    unfolding second_add_def [symmetric] m first_add_parts(2)
    by (simp add: numeral_2_eq_2)
qed

text \<open>
  Claim C5, as stated, fails: two files of the same name added under the same clock
  reading get the same identifier and the same storage file.  The second call returns
  \<open>True\<close>, the entry of the first file is replaced and its ciphertext overwritten.
\<close>

theorem add_file_collision_counterexample:
  "fst (snd (snd second_add)) = True
   \<and> snd (snd (snd second_add)) = []
   \<and> dict_get (vm_index (fst first_add)) ''h110.111.116.101''
       = Some \<lparr>original_name = ''note.txt'',
                vault_file = ''h110.111.116.101.46.116.120.116.55..enc'',
                added_at = 7, size_bytes = 3, sha256 = Some ''h1.2.3.''\<rparr>
   \<and> dict_get (vm_index (fst second_add)) ''h110.111.116.101''
       = Some \<lparr>original_name = ''note.txt'',
                vault_file = ''h110.111.116.101.46.116.120.116.55..enc'',
                added_at = 8, size_bytes = 2, sha256 = Some ''h4.5.''\<rparr>
   \<and> files (fst (snd first_add)) (joinpath VAULT_DIR ''h110.111.116.101.46.116.120.116.55..enc'')
       = Some [238, 1, 2, 3]
   \<and> files (fst (snd second_add)) (joinpath VAULT_DIR ''h110.111.116.101.46.116.120.116.55..enc'')
       = Some [238, 4, 5]"
proof -
  have s: "second_add =
     ((fst first_add)\<lparr>vm_index := dict_set (take 16 ''h110.111.116.101.46.116.120.116.55.'')
          \<lparr>original_name = ''note.txt'', vault_file = ''h110.111.116.101.46.116.120.116.55..enc'',
             added_at = 8, size_bytes = 2, sha256 = Some ''h4.5.''\<rparr> (vm_index (fst first_add))\<rparr>,
      (fst (snd first_add))\<lparr>files := (files (fst (snd first_add)))
         (joinpath VAULT_DIR (''h110.111.116.101.46.116.120.116.55.'' @ ''.enc'') \<mapsto> [238, 4, 5],
          VAULT_INDEX \<mapsto> 238 # str_encode ''h110.111.116.101'')\<rparr>,
      True, [])"
    unfolding second_add_def
    by (subst add_file_ok [where plaintext = "[4, 5]" and ciphertext = "[238, 4, 5]"
          and vault_stem = "''h110.111.116.101.46.116.120.116.55.''"
          and ict = "238 # str_encode ''h110.111.116.101''", OF first_add_parts(3) _ _ refl _
          first_add_parts(4)])
      (simp_all add: first_add_parts demo_crypto_total demo_env_def str_encode_def
        get_file_integrity_hash_def demo_sha_def digit_char_def path_name_def
        joinpath_def VAULT_DIR_def)
  have ne: "joinpath VAULT_DIR ''h110.111.116.101.46.116.120.116.55..enc'' \<noteq> VAULT_INDEX"
    by (simp add: joinpath_def VAULT_DIR_def VAULT_INDEX_def)
  show ?thesis
    by (simp add: s first_add_parts dict_get_def ne)
qed


end
